theory Spec2Isabelle
  imports Complex_Main "HOL-Library.Sublist" "HOL-Library.Multiset"
begin

section \<open>JavaScript numbers\<close>

text \<open>
  A JavaScript \<open>number\<close> is an IEEE double. Its three special values are constructors
  of their own: \<open>NaN\<close>, \<open>+Infinity\<close> and \<open>-Infinity\<close>. A finite double is a real number.
  The sign of zero is not modelled.
\<close>

datatype jsnum = Fin real | PosInf | NegInf | NaN

text \<open>
  An arithmetic operation on finite doubles returns the double nearest to the exact
  result, the one with the even significand on a tie, and an infinity when that is
  beyond the largest double. A double is a multiple of a power of two by an integer below
  \<open>2^53\<close>: for a magnitude \<open>a\<close> in the binade of \<open>2^e\<close> (the greatest \<open>e\<close> with \<open>2^e \<le> a\<close>, and
  no less than -1022, where the subnormal numbers begin) the multiples of \<open>2^(e - 52)\<close>.
\<close>

definition pow2 :: "int \<Rightarrow> real" where
  "pow2 e = (if 0 \<le> e then 2 ^ nat e else 1 / 2 ^ nat (- e))"

definition binade :: "real \<Rightarrow> int" where
  "binade a =
     fold (\<lambda>w e. if pow2 (e + w) \<le> a then e + w else e)
       [1024, 512, 256, 128, 64, 32, 16, 8, 4, 2, 1] (- 1022)"

definition nearestEven :: "real \<Rightarrow> int" where
  "nearestEven r =
     (if r - of_int \<lfloor>r\<rfloor> < 1 / 2 then \<lfloor>r\<rfloor>
      else if 1 / 2 < r - of_int \<lfloor>r\<rfloor> then \<lfloor>r\<rfloor> + 1
      else if even \<lfloor>r\<rfloor> then \<lfloor>r\<rfloor> else \<lfloor>r\<rfloor> + 1)"

definition roundAt :: "int \<Rightarrow> real \<Rightarrow> real" where
  "roundAt e a = of_int (nearestEven (a / pow2 (e - 52))) * pow2 (e - 52)"

definition toDouble :: "real \<Rightarrow> jsnum" where
  "toDouble x =
     (if pow2 1024 \<le> roundAt (binade \<bar>x\<bar>) \<bar>x\<bar> then (if x < 0 then NegInf else PosInf)
      else Fin (sgn x * roundAt (binade \<bar>x\<bar>) \<bar>x\<bar>))"

text \<open>The global \<open>isNaN\<close> on a number.\<close>

fun isNaN :: "jsnum \<Rightarrow> bool" where
  "isNaN NaN = True"
| "isNaN _ = False"

text \<open>\<open>Number.isFinite\<close>: what the specification calls a finite value.\<close>

fun isFinite :: "jsnum \<Rightarrow> bool" where
  "isFinite (Fin _) = True"
| "isFinite _ = False"

fun jsNeg :: "jsnum \<Rightarrow> jsnum" where
  "jsNeg (Fin a) = Fin (- a)"
| "jsNeg PosInf = NegInf"
| "jsNeg NegInf = PosInf"
| "jsNeg NaN = NaN"

fun jsAdd :: "jsnum \<Rightarrow> jsnum \<Rightarrow> jsnum" where
  "jsAdd NaN _ = NaN"
| "jsAdd _ NaN = NaN"
| "jsAdd (Fin a) (Fin b) = toDouble (a + b)"
| "jsAdd (Fin _) PosInf = PosInf"
| "jsAdd (Fin _) NegInf = NegInf"
| "jsAdd PosInf (Fin _) = PosInf"
| "jsAdd NegInf (Fin _) = NegInf"
| "jsAdd PosInf PosInf = PosInf"
| "jsAdd NegInf NegInf = NegInf"
| "jsAdd PosInf NegInf = NaN"
| "jsAdd NegInf PosInf = NaN"

definition jsSub :: "jsnum \<Rightarrow> jsnum \<Rightarrow> jsnum" where
  "jsSub a b = jsAdd a (jsNeg b)"

text \<open>The sign of an infinite product; zero times infinity is \<open>NaN\<close>.\<close>

definition infTimes :: "bool \<Rightarrow> real \<Rightarrow> jsnum" where
  "infTimes positive a =
     (if a = 0 then NaN else if (0 < a) = positive then PosInf else NegInf)"

fun jsMul :: "jsnum \<Rightarrow> jsnum \<Rightarrow> jsnum" where
  "jsMul NaN _ = NaN"
| "jsMul _ NaN = NaN"
| "jsMul (Fin a) (Fin b) = toDouble (a * b)"
| "jsMul (Fin a) PosInf = infTimes True a"
| "jsMul (Fin a) NegInf = infTimes False a"
| "jsMul PosInf (Fin b) = infTimes True b"
| "jsMul NegInf (Fin b) = infTimes False b"
| "jsMul PosInf PosInf = PosInf"
| "jsMul NegInf NegInf = PosInf"
| "jsMul PosInf NegInf = NegInf"
| "jsMul NegInf PosInf = NegInf"

text \<open>Division by a positive finite constant (\<open>value / 1e9\<close>).\<close>

fun jsDivPos :: "jsnum \<Rightarrow> real \<Rightarrow> jsnum" where
  "jsDivPos (Fin a) d = toDouble (a / d)"
| "jsDivPos x d = x"

fun jsAbs :: "jsnum \<Rightarrow> jsnum" where
  "jsAbs (Fin a) = Fin \<bar>a\<bar>"
| "jsAbs PosInf = PosInf"
| "jsAbs NegInf = PosInf"
| "jsAbs NaN = NaN"

text \<open>\<open>x >= c\<close> for a finite constant \<open>c\<close>; every comparison with \<open>NaN\<close> is false.\<close>

fun jsGe :: "jsnum \<Rightarrow> real \<Rightarrow> bool" where
  "jsGe (Fin a) c = (c \<le> a)"
| "jsGe PosInf c = True"
| "jsGe NegInf c = False"
| "jsGe NaN c = False"

section \<open>Dates and data points (graphTypes.ts)\<close>

text \<open>
  \<open>date: string | Date\<close>. A \<open>Date\<close> object holds a time value, an integral number of
  milliseconds since the epoch, or \<open>NaN\<close> (an invalid date), which is \<open>None\<close> here.
\<close>

datatype jsdate = DateStr string | DateObj "int option"

text \<open>\<open>TimeSeriesDataPoint\<close>; \<open>value: number | null\<close>, where \<open>null\<close> is \<open>None\<close>.\<close>

record point =
  date :: jsdate
  pvalue :: "jsnum option"

section \<open>Missing values (dataTransform.ts)\<close>

text \<open>
  The test \<open>value !== null && !isNaN(value)\<close> of \<open>remove\<close> and \<open>interpolate\<close>; \<open>zero\<close>
  writes its negation, \<open>value === null || isNaN(value)\<close>.
\<close>

fun isPresent :: "jsnum option \<Rightarrow> bool" where
  "isPresent None = False"
| "isPresent (Some v) = (\<not> isNaN v)"

text \<open>
  The state of the loop of \<open>interpolateMissingValues\<close>: the array \<open>result\<close> and the two
  variables \<open>lastValidValue\<close> (initially \<open>null\<close>) and \<open>lastValidIndex\<close> (initially -1). The
  elements of \<open>result\<close> are points here, and references to points in the model with a
  heap further down.
\<close>

record 'a istate =
  result :: "'a list"
  lastValidValue :: "jsnum option"
  lastValidIndex :: int

text \<open>
  \<open>lastValidValue + (value - lastValidValue) * ratio\<close>, where
  \<open>ratio = (j - lastValidIndex) / gap\<close> is a quotient of two integers, \<open>gap\<close> positive.
\<close>

definition interpolatedValue :: "jsnum \<Rightarrow> jsnum \<Rightarrow> int \<Rightarrow> int \<Rightarrow> jsnum" where
  "interpolatedValue lastValid v k gap =
     jsAdd lastValid (jsMul (jsSub v lastValid) (toDouble (of_int k / of_int gap)))"

text \<open>
  The inner loop: for \<open>j\<close> from \<open>lastValidIndex + 1\<close> below \<open>i\<close>, the object
  \<open>{...data[j], value: interpolatedValue}\<close>.
\<close>

definition fillGap :: "point list \<Rightarrow> jsnum \<Rightarrow> int \<Rightarrow> jsnum \<Rightarrow> nat \<Rightarrow> point list" where
  "fillGap data lastValid lastIdx v i =
     map (\<lambda>j. (data ! j)\<lparr>pvalue := Some (interpolatedValue lastValid v
                  (int j - lastIdx) (int i - lastIdx))\<rparr>)
       [nat (lastIdx + 1)..<i]"

text \<open>
  One iteration of the outer loop, at index \<open>i\<close> (always below \<open>data.length\<close>). A point
  that is not present is pushed at once; at the next present point the interpolated
  points are pushed as well.
\<close>

definition interpStep :: "point list \<Rightarrow> nat \<Rightarrow> point istate \<Rightarrow> point istate" where
  "interpStep data i st =
     (let p = data ! i in
      case pvalue p of
        None \<Rightarrow> st\<lparr>result := result st @ [p]\<rparr>
      | Some v \<Rightarrow>
          if isNaN v then st\<lparr>result := result st @ [p]\<rparr>
          else
            (let filled =
               (case lastValidValue st of
                  None \<Rightarrow> []
                | Some lastValid \<Rightarrow>
                    if 0 \<le> lastValidIndex st \<and> lastValidIndex st < int i - 1
                    then fillGap data lastValid (lastValidIndex st) v i
                    else [])
             in \<lparr>result = result st @ filled @ [p],
                 lastValidValue = Some v,
                 lastValidIndex = int i\<rparr>))"

definition interpolateMissingValues :: "point list \<Rightarrow> point list" where
  "interpolateMissingValues data =
     result (fold (interpStep data) [0..<length data]
       \<lparr>result = [], lastValidValue = None, lastValidIndex = - 1\<rparr>)"

text \<open>
  \<open>handleMissingValues(data, strategy = 'remove')\<close>. The strategy is a string at run
  time; \<open>None\<close> is the omitted argument, which takes the default. The \<open>default:\<close> branch of
  the switch returns \<open>data\<close>.
\<close>

definition handleMissingValues :: "point list \<Rightarrow> string option \<Rightarrow> point list" where
  "handleMissingValues data strategy =
     (let s = (case strategy of None \<Rightarrow> ''remove'' | Some s \<Rightarrow> s) in
      if s = ''remove'' then filter (\<lambda>p. isPresent (pvalue p)) data
      else if s = ''zero'' then
        map (\<lambda>p. p\<lparr>pvalue := (if isPresent (pvalue p) then pvalue p else Some (Fin 0))\<rparr>) data
      else if s = ''interpolate'' then interpolateMissingValues data
      else data)"

text \<open>
  \<open>Date.parse\<close> is a parameter \<open>parse\<close> of every function that reads a date string: the
  formats an engine accepts beyond the standard one are its own. \<open>None\<close> is \<open>NaN\<close>, the
  time value of an invalid date. \<open>parseDate\<close> returns the \<open>Date\<close> object, which is its
  time value here; the source has no \<open>throw\<close>.
\<close>

definition parseDate :: "(string \<Rightarrow> int option) \<Rightarrow> jsdate \<Rightarrow> int option" where
  "parseDate parse d = (case d of DateObj t \<Rightarrow> t | DateStr s \<Rightarrow> parse s)"

text \<open>
  \<open>Array.prototype.sort\<close> with a comparator, given as the test "\<open>compare(a, b)\<close> is not
  positive". The sort is stable; a stable insertion sort gives the order every engine
  gives when the comparator is consistent. It is not when a date does not parse: the
  order is then the engine's own, and nothing below depends on it.
\<close>

fun insertSorted :: "('a \<Rightarrow> 'a \<Rightarrow> bool) \<Rightarrow> 'a \<Rightarrow> 'a list \<Rightarrow> 'a list" where
  "insertSorted le x [] = [x]"
| "insertSorted le x (y # ys) = (if le x y then x # y # ys else y # insertSorted le x ys)"

definition arraySort :: "('a \<Rightarrow> 'a \<Rightarrow> bool) \<Rightarrow> 'a list \<Rightarrow> 'a list" where
  "arraySort le xs = foldr (insertSorted le) xs []"

text \<open>
  \<open>dateA - dateB\<close> on two time values is positive iff both are numbers and the first is
  the larger; with a \<open>NaN\<close> the difference is \<open>NaN\<close>, which \<open>sort\<close> reads as 0.
\<close>

definition timeNotAfter :: "int option \<Rightarrow> int option \<Rightarrow> bool" where
  "timeNotAfter a b = (case (a, b) of (Some x, Some y) \<Rightarrow> x \<le> y | _ \<Rightarrow> True)"

definition sortDataByDate :: "(string \<Rightarrow> int option) \<Rightarrow> point list \<Rightarrow> point list" where
  "sortDataByDate parse data =
     arraySort (\<lambda>a b. timeNotAfter (parseDate parse (date a)) (parseDate parse (date b))) data"

subsection \<open>formatValue\<close>

text \<open>Decimal digits of a natural number.\<close>

fun digits :: "nat \<Rightarrow> string" where
  "digits n = (if n < 10 then [''0123456789'' ! n]
               else digits (n div 10) @ [''0123456789'' ! (n mod 10)])"

text \<open>
  \<open>Number.prototype.toFixed(2)\<close>: the sign, then the nearest multiple of 1/100 (the
  larger one on a tie), with at least one digit before the point. From \<open>10^21\<close> on the
  result is \<open>Number::toString\<close> in exponent notation, whose digits depend on the
  double: that function is the parameter \<open>big\<close>.
\<close>

definition toFixed2 :: "(real \<Rightarrow> string) \<Rightarrow> jsnum \<Rightarrow> string" where
  "toFixed2 big x =
     (case x of
        NaN \<Rightarrow> ''NaN''
      | PosInf \<Rightarrow> ''Infinity''
      | NegInf \<Rightarrow> ''-Infinity''
      | Fin r \<Rightarrow>
          (let s = (if r < 0 then ''-'' else []); a = \<bar>r\<bar> in
           if 10 ^ 21 \<le> a then s @ big a
           else
             (let m = digits (nat \<lfloor>a * 100 + 1 / 2\<rfloor>);
                  m = (if length m \<le> 2 then replicate (3 - length m) (CHR ''0'') @ m else m)
              in s @ take (length m - 2) m @ ''.'' @ drop (length m - 2) m)))"

text \<open>
  \<open>String.prototype.toLowerCase\<close> on the letters A to Z, and \<open>String.prototype.includes\<close>,
  the substring test.
\<close>

definition toLowerChar :: "char \<Rightarrow> char" where
  "toLowerChar c =
     (case map_of (zip ''ABCDEFGHIJKLMNOPQRSTUVWXYZ'' ''abcdefghijklmnopqrstuvwxyz'') c of
        Some d \<Rightarrow> d
      | None \<Rightarrow> c)"

definition toLowerCase :: "string \<Rightarrow> string" where
  "toLowerCase s = map toLowerChar s"

fun strIncludes :: "string \<Rightarrow> string \<Rightarrow> bool" where
  "strIncludes [] sub = (sub = [])"
| "strIncludes (c # cs) sub = (take (length sub) (c # cs) = sub \<or> strIncludes cs sub)"

text \<open>\<open>units?: string\<close>; \<open>None\<close> is \<open>undefined\<close>, on which \<open>?.\<close> yields \<open>undefined\<close>.\<close>

definition formatValue :: "(real \<Rightarrow> string) \<Rightarrow> jsnum option \<Rightarrow> string option \<Rightarrow> string" where
  "formatValue big v units =
     (case v of
        None \<Rightarrow> ''N/A''
      | Some x \<Rightarrow>
          if isNaN x then ''N/A''
          else if (case units of None \<Rightarrow> False
                   | Some u \<Rightarrow> strIncludes (toLowerCase u) ''percent'' \<or> strIncludes u ''%'')
            then toFixed2 big x @ ''%''
          else if (case units of None \<Rightarrow> False
                   | Some u \<Rightarrow> strIncludes (toLowerCase u) ''index'')
            then toFixed2 big x
          else if jsGe (jsAbs x) 1000000000 then toFixed2 big (jsDivPos x 1000000000) @ ''B''
          else if jsGe (jsAbs x) 1000000 then toFixed2 big (jsDivPos x 1000000) @ ''M''
          else if jsGe (jsAbs x) 1000 then toFixed2 big (jsDivPos x 1000) @ ''K''
          else toFixed2 big x)"

section \<open>The same functions on a heap\<close>

text \<open>
  Whether a call leaves its argument alone is a question about objects, not values. In
  this model an array is a list of references and lives at an address of \<open>arrays\<close>; a
  point object lives at an address of \<open>points\<close>. An address is an index: allocation
  appends, so the addresses of a heap are those below its length. The functions take the
  heap and the address of \<open>data\<close> and return the address of their result and the heap
  after the call. An array a function builds is allocated when it returns it.
\<close>

record heap =
  points :: "point list"
  arrays :: "nat list list"

definition newPoint :: "point \<Rightarrow> heap \<Rightarrow> nat \<times> heap" where
  "newPoint p h = (length (points h), h\<lparr>points := points h @ [p]\<rparr>)"

definition newArray :: "nat list \<Rightarrow> heap \<Rightarrow> nat \<times> heap" where
  "newArray refs h = (length (arrays h), h\<lparr>arrays := arrays h @ [refs]\<rparr>)"

text \<open>One object literal after the other.\<close>

fun newPoints :: "point list \<Rightarrow> heap \<Rightarrow> nat list \<times> heap" where
  "newPoints [] h = ([], h)"
| "newPoints (p # ps) h =
     (case newPoint p h of (r, h1) \<Rightarrow>
        (case newPoints ps h1 of (rs, h2) \<Rightarrow> (r # rs, h2)))"

definition pointAt :: "heap \<Rightarrow> nat \<Rightarrow> point" where
  "pointAt h r = points h ! r"

text \<open>The points an array holds, in order.\<close>

definition derefArray :: "heap \<Rightarrow> nat \<Rightarrow> point list" where
  "derefArray h a = map (pointAt h) (arrays h ! a)"

text \<open>
  \<open>interpolateMissingValues\<close>: \<open>result.push(point)\<close> pushes the reference it read from
  \<open>data\<close>; \<open>{...data[j], value: interpolatedValue}\<close> is a new object.
\<close>

definition interpStep_heap :: "nat list \<Rightarrow> nat \<Rightarrow> nat istate \<times> heap \<Rightarrow> nat istate \<times> heap" where
  "interpStep_heap refs i sh =
     (case sh of (st, h) \<Rightarrow>
        (let r = refs ! i in
         case pvalue (pointAt h r) of
           None \<Rightarrow> (st\<lparr>result := result st @ [r]\<rparr>, h)
         | Some v \<Rightarrow>
             if isNaN v then (st\<lparr>result := result st @ [r]\<rparr>, h)
             else
               (case (case lastValidValue st of
                        None \<Rightarrow> ([], h)
                      | Some lastValid \<Rightarrow>
                          if 0 \<le> lastValidIndex st \<and> lastValidIndex st < int i - 1
                          then newPoints
                                 (fillGap (map (pointAt h) refs) lastValid (lastValidIndex st) v i) h
                          else ([], h)) of
                  (filled, h') \<Rightarrow>
                    (\<lparr>result = result st @ filled @ [r],
                      lastValidValue = Some v,
                      lastValidIndex = int i\<rparr>, h'))))"

definition interpolateMissingValues_heap :: "heap \<Rightarrow> nat \<Rightarrow> nat \<times> heap" where
  "interpolateMissingValues_heap h a =
     (case fold (interpStep_heap (arrays h ! a)) [0..<length (arrays h ! a)]
             (\<lparr>result = [], lastValidValue = None, lastValidIndex = - 1\<rparr>, h) of
        (st, h') \<Rightarrow> newArray (result st) h')"

text \<open>
  \<open>handleMissingValues\<close>: \<open>filter\<close> returns a new array of the references it keeps;
  \<open>map\<close> a new array of the new objects \<open>{...point, value: ...}\<close>; the \<open>default:\<close> branch
  returns \<open>data\<close> itself.
\<close>

definition handleMissingValues_heap :: "heap \<Rightarrow> nat \<Rightarrow> string option \<Rightarrow> nat \<times> heap" where
  "handleMissingValues_heap h a strategy =
     (let s = (case strategy of None \<Rightarrow> ''remove'' | Some s \<Rightarrow> s) in
      if s = ''remove'' then
        newArray (filter (\<lambda>r. isPresent (pvalue (pointAt h r))) (arrays h ! a)) h
      else if s = ''zero'' then
        (case newPoints
                (map (\<lambda>r. (pointAt h r)\<lparr>pvalue :=
                        (if isPresent (pvalue (pointAt h r)) then pvalue (pointAt h r)
                         else Some (Fin 0))\<rparr>)
                   (arrays h ! a)) h of
           (refs, h') \<Rightarrow> newArray refs h')
      else if s = ''interpolate'' then interpolateMissingValues_heap h a
      else (a, h))"

text \<open>\<open>sortDataByDate\<close>: \<open>[...data]\<close> is a new array, which \<open>sort\<close> then orders in place.\<close>

definition sortDataByDate_heap :: "(string \<Rightarrow> int option) \<Rightarrow> heap \<Rightarrow> nat \<Rightarrow> nat \<times> heap" where
  "sortDataByDate_heap parse h a =
     newArray
       (arraySort
          (\<lambda>x y. timeNotAfter (parseDate parse (date (pointAt h x)))
                    (parseDate parse (date (pointAt h y))))
          (arrays h ! a)) h"

section \<open>Chart configuration (graphConfig.ts)\<close>

text \<open>
  A configuration is an object literal: a finite map from property names to values. A
  property that is present with the value \<open>undefined\<close> is \<open>Some VUndefined\<close>; a property
  that is absent is \<open>None\<close>. Object spread \<open>{...a, ...b}\<close> is \<open>a ++ b\<close>: every own
  property of \<open>b\<close> overrides.
\<close>

datatype jsval =
    VUndefined
  | VNum real
  | VStr string
  | VBool bool
  | VArray "jsval list"
  | VObject "string \<Rightarrow> jsval option"

type_synonym jsobject = "string \<Rightarrow> jsval option"

definition DEFAULT_COLORS :: "string list" where
  "DEFAULT_COLORS =
     [''#8884d8'', ''#82ca9d'', ''#ffc658'', ''#ff7300'',
      ''#0088fe'', ''#00c49f'', ''#ffbb28'', ''#ff8042'']"

definition DEFAULT_MARGIN :: jsobject where
  "DEFAULT_MARGIN =
     [''top'' \<mapsto> VNum 20, ''right'' \<mapsto> VNum 30, ''left'' \<mapsto> VNum 20, ''bottom'' \<mapsto> VNum 20]"

definition DEFAULT_LINE_CHART_CONFIG :: jsobject where
  "DEFAULT_LINE_CHART_CONFIG =
     [''width'' \<mapsto> VStr ''100%'',
      ''height'' \<mapsto> VNum 400,
      ''margin'' \<mapsto> VObject DEFAULT_MARGIN,
      ''colors'' \<mapsto> VArray (map VStr DEFAULT_COLORS),
      ''showLegend'' \<mapsto> VBool True,
      ''showGrid'' \<mapsto> VBool True,
      ''responsive'' \<mapsto> VBool True,
      ''strokeWidth'' \<mapsto> VNum 2,
      ''dot'' \<mapsto> VBool False,
      ''activeDot'' \<mapsto> VObject [''r'' \<mapsto> VNum 6],
      ''connectNulls'' \<mapsto> VBool False]"

definition DEFAULT_BAR_CHART_CONFIG :: jsobject where
  "DEFAULT_BAR_CHART_CONFIG =
     [''width'' \<mapsto> VStr ''100%'',
      ''height'' \<mapsto> VNum 400,
      ''margin'' \<mapsto> VObject DEFAULT_MARGIN,
      ''colors'' \<mapsto> VArray (map VStr DEFAULT_COLORS),
      ''showLegend'' \<mapsto> VBool True,
      ''showGrid'' \<mapsto> VBool True,
      ''responsive'' \<mapsto> VBool True,
      ''barSize'' \<mapsto> VNum 20,
      ''barCategoryGap'' \<mapsto> VStr ''10%'',
      ''barGap'' \<mapsto> VNum 4]"

definition DEFAULT_AREA_CHART_CONFIG :: jsobject where
  "DEFAULT_AREA_CHART_CONFIG =
     [''width'' \<mapsto> VStr ''100%'',
      ''height'' \<mapsto> VNum 400,
      ''margin'' \<mapsto> VObject DEFAULT_MARGIN,
      ''colors'' \<mapsto> VArray (map VStr DEFAULT_COLORS),
      ''showLegend'' \<mapsto> VBool True,
      ''showGrid'' \<mapsto> VBool True,
      ''responsive'' \<mapsto> VBool True,
      ''strokeWidth'' \<mapsto> VNum 2,
      ''fillOpacity'' \<mapsto> VNum (6 / 10),
      ''connectNulls'' \<mapsto> VBool False]"

text \<open>
  \<open>getDefaultConfig(chartType = 'line')\<close>. The chart type is a string at run time
  (\<open>'scatter'\<close> is in the type \<open>ChartType\<close> and has no case); \<open>None\<close> is the omitted
  argument.
\<close>

definition getDefaultConfig :: "string option \<Rightarrow> jsobject" where
  "getDefaultConfig chartType =
     (let t = (case chartType of None \<Rightarrow> ''line'' | Some t \<Rightarrow> t) in
      if t = ''line'' then DEFAULT_LINE_CHART_CONFIG
      else if t = ''bar'' then DEFAULT_BAR_CHART_CONFIG
      else if t = ''area'' then DEFAULT_AREA_CHART_CONFIG
      else DEFAULT_LINE_CHART_CONFIG)"

text \<open>
  The own properties that \<open>...x\<close> copies from the value of a \<open>margin\<close> property: those of
  the object; none when the property is absent or \<open>undefined\<close>. The declared type of
  \<open>margin\<close> admits no other value.
\<close>

fun spreadProps :: "jsval option \<Rightarrow> jsobject" where
  "spreadProps (Some (VObject m)) = m"
| "spreadProps _ = Map.empty"

text \<open>\<open>mergeConfig(defaultConfig, userConfig?)\<close>; \<open>None\<close> is a missing \<open>userConfig\<close>.\<close>

definition mergeConfig :: "jsobject \<Rightarrow> jsobject option \<Rightarrow> jsobject" where
  "mergeConfig defaultConfig userConfig =
     (case userConfig of
        None \<Rightarrow> defaultConfig
      | Some u \<Rightarrow>
          (defaultConfig ++ u)
            (''margin'' \<mapsto>
               VObject (spreadProps (defaultConfig ''margin'') ++ spreadProps (u ''margin''))))"

text \<open>
  The first two statements of the component \<open>TimeSeriesGraph\<close>, whose prop \<open>chartType\<close>
  defaults to \<open>'line'\<close> as well:
  \<open>config = mergeConfig(getDefaultConfig(chartType), userConfig)\<close>.
\<close>

definition resolvedConfig :: "string option \<Rightarrow> jsobject option \<Rightarrow> jsobject" where
  "resolvedConfig chartType userConfig = mergeConfig (getDefaultConfig chartType) userConfig"

section \<open>Date strings\<close>

text \<open>
  \<open>Date.prototype.toISOString\<close> on a valid time value: the proleptic Gregorian date of
  the day number, then the time of day, in UTC. Years outside 0 to 9999 are written with
  a sign and six digits. The date of a day number is computed by eras of 400 years,
  which begin on a first of March: from the day of the era its year, from the day of
  that year (counted from March) the month and the day.
\<close>

definition civilDate :: "int \<Rightarrow> int \<Rightarrow> int \<Rightarrow> int \<times> int \<times> int" where
  "civilDate y mp d = (if mp < 10 then (y, mp + 3, d) else (y + 1, mp - 9, d))"

definition civilFromYear :: "int \<Rightarrow> int \<Rightarrow> int \<times> int \<times> int" where
  "civilFromYear y doy =
     civilDate y ((5 * doy + 2) div 153) (doy - (153 * ((5 * doy + 2) div 153) + 2) div 5 + 1)"

definition yearOfEra :: "int \<Rightarrow> int" where
  "yearOfEra doe = (doe - doe div 1460 + doe div 36524 - doe div 146096) div 365"

definition civilFromEra :: "int \<Rightarrow> int \<Rightarrow> int \<times> int \<times> int" where
  "civilFromEra era doe =
     civilFromYear (yearOfEra doe + era * 400)
       (doe - (365 * yearOfEra doe + yearOfEra doe div 4 - yearOfEra doe div 100))"

definition civilFromDays :: "int \<Rightarrow> int \<times> int \<times> int" where
  "civilFromDays days = civilFromEra ((days + 719468) div 146097) ((days + 719468) mod 146097)"

definition padDigits :: "nat \<Rightarrow> nat \<Rightarrow> string" where
  "padDigits width n = replicate (width - length (digits n)) (CHR ''0'') @ digits n"

definition isoDate :: "int \<times> int \<times> int \<Rightarrow> string" where
  "isoDate ymd =
     (case ymd of
        (y, m, d) \<Rightarrow>
          (if 0 \<le> y \<and> y \<le> 9999 then padDigits 4 (nat y)
           else (if y < 0 then ''-'' else ''+'') @ padDigits 6 (nat \<bar>y\<bar>))
          @ ''-'' @ padDigits 2 (nat m) @ ''-'' @ padDigits 2 (nat d))"

definition isoTime :: "nat \<Rightarrow> string" where
  "isoTime ms =
     padDigits 2 (ms div 3600000)
     @ '':'' @ padDigits 2 (ms div 60000 mod 60)
     @ '':'' @ padDigits 2 (ms div 1000 mod 60)
     @ ''.'' @ padDigits 3 (ms mod 1000)"

definition toISOString :: "int \<Rightarrow> string" where
  "toISOString t =
     isoDate (civilFromDays (t div 86400000)) @ ''T'' @ isoTime (nat (t mod 86400000)) @ ''Z''"

text \<open>
  An instance of \<open>Date.parse\<close> for evaluation: the date-only forms \<open>YYYY\<close>, \<open>YYYY-MM\<close> and
  \<open>YYYY-MM-DD\<close> of the ECMAScript date-time string format, which every engine reads as
  midnight UTC of that day (a missing month or day is 01). On every other string the
  instance answers \<open>None\<close>. That is what every engine answers on a string that is no
  date at all; the forms with a time of day, and what an engine reads beyond the
  standard format, are left out of the instance.
\<close>

fun natOfDigits :: "string \<Rightarrow> nat option" where
  "natOfDigits [] = Some 0"
| "natOfDigits (c # cs) =
     (case (map_of (zip ''0123456789'' [0, 1, 2, 3, 4, 5, 6, 7, 8, 9]) c, natOfDigits cs) of
        (Some v, Some n) \<Rightarrow> Some (v * 10 ^ length cs + n)
      | _ \<Rightarrow> None)"

definition daysInMonth :: "nat \<Rightarrow> nat \<Rightarrow> nat" where
  "daysInMonth y m =
     (if m = 2 then (if y mod 4 = 0 \<and> (y mod 100 \<noteq> 0 \<or> y mod 400 = 0) then 29 else 28)
      else if m = 4 \<or> m = 6 \<or> m = 9 \<or> m = 11 then 30 else 31)"

text \<open>The day number of a date, the inverse: \<open>y\<close> is the year that begins in March.\<close>

definition daysFromMarchYear :: "int \<Rightarrow> int \<Rightarrow> int" where
  "daysFromMarchYear y doy =
     (y div 400) * 146097
     + ((y mod 400) * 365 + (y mod 400) div 4 - (y mod 400) div 100 + doy) - 719468"

definition daysFromCivil :: "int \<Rightarrow> int \<Rightarrow> int \<Rightarrow> int" where
  "daysFromCivil y m d =
     daysFromMarchYear (if m \<le> 2 then y - 1 else y)
       ((153 * (if 2 < m then m - 3 else m + 9) + 2) div 5 + d - 1)"

definition utcMidnight :: "string \<Rightarrow> string \<Rightarrow> string \<Rightarrow> int option" where
  "utcMidnight ys ms ds =
     (case (natOfDigits ys, natOfDigits ms, natOfDigits ds) of
        (Some y, Some m, Some d) \<Rightarrow>
          if 1 \<le> m \<and> m \<le> 12 \<and> 1 \<le> d \<and> d \<le> daysInMonth y m
          then Some (daysFromCivil (int y) (int m) (int d) * 86400000)
          else None
      | _ \<Rightarrow> None)"

definition dateOnlyParse :: "string \<Rightarrow> int option" where
  "dateOnlyParse s =
     (if length s = 4 then utcMidnight s ''01'' ''01''
      else if length s = 7 \<and> s ! 4 = CHR ''-'' then utcMidnight (take 4 s) (drop 5 s) ''01''
      else if length s = 10 \<and> s ! 4 = CHR ''-'' \<and> s ! 7 = CHR ''-''
        then utcMidnight (take 4 s) (take 2 (drop 5 s)) (drop 8 s)
      else None)"

section \<open>Alignment of the datasets (TimeSeriesGraph.tsx)\<close>

type_synonym metadata = "string \<Rightarrow> jsval option"

text \<open>\<open>TimeSeriesDataset\<close>; \<open>dsId\<close> is its property \<open>id\<close>.\<close>

record dataset =
  dsId :: string
  label :: string
  data :: "point list"
  metadata :: "metadata option"

text \<open>The only exception of this code: \<open>toISOString\<close> throws on an invalid date.\<close>

datatype error = RangeError

text \<open>\<open>point.date instanceof Date ? point.date.toISOString() : point.date\<close>\<close>

fun dateStr :: "jsdate \<Rightarrow> error + string" where
  "dateStr (DateStr s) = Inr s"
| "dateStr (DateObj (Some t)) = Inr (toISOString t)"
| "dateStr (DateObj None) = Inl RangeError"

text \<open>\<open>forEach\<close> with a callback that may throw: the first exception ends the loop.\<close>

fun forEach :: "('a \<Rightarrow> 's \<Rightarrow> error + 's) \<Rightarrow> 'a list \<Rightarrow> 's \<Rightarrow> error + 's" where
  "forEach f [] s = Inr s"
| "forEach f (x # xs) s = (case f x s of Inl e \<Rightarrow> Inl e | Inr s' \<Rightarrow> forEach f xs s')"

text \<open>The first pair of loops fills the set \<open>allDates\<close>, which nothing reads afterwards.\<close>

definition addDate :: "point \<Rightarrow> string set \<Rightarrow> error + string set" where
  "addDate p dates = (case dateStr (date p) of Inl e \<Rightarrow> Inl e | Inr s \<Rightarrow> Inr (insert s dates))"

definition allDates :: "dataset list \<Rightarrow> error + string set" where
  "allDates datasets = forEach (\<lambda>ds. forEach addDate (data ds)) datasets {}"

text \<open>
  A row is an object: the property \<open>date\<close>, a property named by the \<open>id\<close> of each dataset
  with a point at that date, and a property \<open>id_metadata\<close>.
\<close>

datatype cell = CDate string | CValue "jsnum option" | CMetadata metadata

type_synonym row = "string \<Rightarrow> cell option"

text \<open>
  \<open>dataMap\<close> is a \<open>Map\<close>: its entries in the order in which their keys were first set.
  The body of the inner loop of the second pair: a new key gets the row
  \<open>{ date: dateStr }\<close>; then the row of the key is assigned to.
\<close>

definition setPoint :: "dataset \<Rightarrow> point \<Rightarrow> row \<Rightarrow> row" where
  "setPoint ds p r =
     (let r' = r(dsId ds \<mapsto> CValue (pvalue p)) in
      case metadata ds of
        None \<Rightarrow> r'
      | Some md \<Rightarrow> r'(dsId ds @ ''_metadata'' \<mapsto> CMetadata md))"

definition putPoint :: "dataset \<Rightarrow> point \<Rightarrow> (string \<times> row) list \<Rightarrow> error + (string \<times> row) list" where
  "putPoint ds p dataMap =
     (case dateStr (date p) of
        Inl e \<Rightarrow> Inl e
      | Inr k \<Rightarrow>
          (let dataMap' =
                 (if k \<in> set (map fst dataMap) then dataMap
                  else dataMap @ [(k, [''date'' \<mapsto> CDate k])])
           in Inr (map (\<lambda>(k', r). if k' = k then (k', setPoint ds p r) else (k', r)) dataMap')))"

definition buildDataMap :: "dataset list \<Rightarrow> error + (string \<times> row) list" where
  "buildDataMap datasets = forEach (\<lambda>ds. forEach (putPoint ds) (data ds)) datasets []"

text \<open>
  \<open>new Date(a.date).getTime()\<close> in the comparator. The property \<open>date\<close> holds the date
  string, unless a dataset is itself named \<open>date\<close> and has overwritten it with a value:
  \<open>new Date\<close> of a number clips and truncates it, of \<open>null\<close> is the epoch. The last two
  cases do not arise (no \<open>id_metadata\<close> is \<open>date\<close>, and every row has a \<open>date\<close>).
\<close>

definition rowTime :: "(string \<Rightarrow> int option) \<Rightarrow> row \<Rightarrow> int option" where
  "rowTime parse r =
     (case r ''date'' of
        Some (CDate s) \<Rightarrow> parse s
      | Some (CValue None) \<Rightarrow> Some 0
      | Some (CValue (Some (Fin x))) \<Rightarrow>
          if \<bar>x\<bar> \<le> 8640000000000000 then Some (if 0 \<le> x then \<lfloor>x\<rfloor> else \<lceil>x\<rceil>) else None
      | Some (CValue (Some _)) \<Rightarrow> None
      | Some (CMetadata _) \<Rightarrow> parse ''[object Object]''
      | None \<Rightarrow> None)"

text \<open>The memoised value \<open>chartData\<close> of the component.\<close>

definition chartData :: "(string \<Rightarrow> int option) \<Rightarrow> dataset list \<Rightarrow> error + row list" where
  "chartData parse datasets =
     (if length datasets = 0 then Inr []
      else
        case allDates datasets of
          Inl e \<Rightarrow> Inl e
        | Inr dates \<Rightarrow>
            (case buildDataMap datasets of
               Inl e \<Rightarrow> Inl e
             | Inr dataMap \<Rightarrow>
                 Inr (arraySort (\<lambda>a b. timeNotAfter (rowTime parse a) (rowTime parse b))
                        (map snd dataMap))))"

section \<open>Vocabulary of the alignment properties\<close>

text \<open>
  The date key of a point is the string the loops compute for it: the date string
  itself, or the ISO string of a valid \<open>Date\<close> object.
\<close>

definition dateKey :: "jsdate \<Rightarrow> string" where
  "dateKey d = (case dateStr d of Inr s \<Rightarrow> s | Inl e \<Rightarrow> [])"

definition dateKeys :: "dataset list \<Rightarrow> string set" where
  "dateKeys datasets = (\<Union>ds \<in> set datasets. (\<lambda>p. dateKey (date p)) ` set (data ds))"

text \<open>No point holds an invalid \<open>Date\<close> object.\<close>

definition validDates :: "dataset list \<Rightarrow> bool" where
  "validDates datasets = (\<forall>ds \<in> set datasets. \<forall>p \<in> set (data ds). date p \<noteq> DateObj None)"

text \<open>What \<open>putPoint\<close> does to \<open>dataMap\<close> when it does not throw.\<close>

definition insertPoint :: "dataset \<Rightarrow> point \<Rightarrow> (string \<times> row) list \<Rightarrow> (string \<times> row) list" where
  "insertPoint ds p dataMap =
     (let k = dateKey (date p);
          dataMap' = (if k \<in> set (map fst dataMap) then dataMap
                      else dataMap @ [(k, [''date'' \<mapsto> CDate k])])
      in map (\<lambda>(k', r). if k' = k then (k', setPoint ds p r) else (k', r)) dataMap')"

text \<open>
  The rows of \<open>dataMap\<close>, given the set \<open>D\<close> of the pairs of a dataset and a point
  handled so far: a row holds its key as \<open>date\<close>, and any other property of it was
  written for a point with that key.
\<close>

definition rowOf :: "(dataset \<times> point) set \<Rightarrow> string \<Rightarrow> row \<Rightarrow> bool" where
  "rowOf D k r =
     (r ''date'' = Some (CDate k)
      \<and> (\<forall>x. x \<noteq> ''date'' \<and> r x \<noteq> None \<longrightarrow>
            (\<exists>ds p. (ds, p) \<in> D \<and> dateKey (date p) = k
               \<and> (x = dsId ds \<or> x = dsId ds @ ''_metadata''))))"

definition rowsFrom :: "(dataset \<times> point) set \<Rightarrow> (string \<times> row) list \<Rightarrow> bool" where
  "rowsFrom D m = (\<forall>kr \<in> set m. rowOf D (fst kr) (snd kr))"

section \<open>Vocabulary of the frame property\<close>

text \<open>
  Every address of the heap \<open>h\<close> holds in \<open>h'\<close> what it held in \<open>h\<close>: no point object and
  no array that existed has been written to.
\<close>

definition preserved :: "heap \<Rightarrow> heap \<Rightarrow> bool" where
  "preserved h h' =
     (take (length (points h)) (points h') = points h
      \<and> take (length (arrays h)) (arrays h') = arrays h)"

text \<open>\<open>a\<close> is the address of an array of \<open>h\<close> whose elements are addresses of points of \<open>h\<close>.\<close>

definition validArray :: "heap \<Rightarrow> nat \<Rightarrow> bool" where
  "validArray h a = (a < length (arrays h) \<and> list_all (\<lambda>x. x < length (points h)) (arrays h ! a))"

text \<open>\<open>r\<close> is the address of an array of \<open>h'\<close> that \<open>h\<close> did not have.\<close>

definition freshArray :: "heap \<Rightarrow> heap \<Rightarrow> nat \<Rightarrow> bool" where
  "freshArray h h' r = (length (arrays h) \<le> r \<and> r < length (arrays h'))"

section \<open>Instances for evaluation\<close>

text \<open>
  The closed instances below format values under \<open>10^21\<close> only, where \<open>toFixed\<close> does
  not consult \<open>Number::toString\<close>; they pass this constant for it.
\<close>

definition noExponent :: "real \<Rightarrow> string" where
  "noExponent x = []"

section \<open>Doubles on sample values\<close>

lemmas double_defs = toDouble_def roundAt_def nearestEven_def binade_def pow2_def

text \<open>
  A small integer is a double. The double of a third lies below it; three times that
  double is half a unit in the last place below 1, a tie, and rounds to 1. Beyond the
  largest double the result is infinite, and below half the smallest it is zero.
\<close>

lemma toDouble_samples:
  "toDouble 5 = Fin 5"
  "toDouble 0 = Fin 0"
  "toDouble (1 / 3) = Fin (6004799503160661 / 18014398509481984)"
  "toDouble (3 * (6004799503160661 / 18014398509481984)) = Fin 1"
  "toDouble (1005000 / 1000000) = Fin (1131529406376837 / 1125899906842624)"
  "toDouble (- (2 * 10 ^ 308)) = NegInf"
  "toDouble (2 ^ 1024 - 2 ^ 970) = PosInf"
  "toDouble (2 ^ 1024 - 2 ^ 971) = Fin (2 ^ 1024 - 2 ^ 971)"
  "toDouble (1 / 2 ^ 1075) = Fin 0"
  "toDouble (3 / 2 ^ 1075) = Fin (2 / 2 ^ 1074)"
  by (simp_all add: double_defs)

text \<open>
  \<open>lastValidValue + (value - lastValidValue) * ratio\<close> in doubles: between 0 and 5 the
  first of two missing points gets 1.6666666666666665, which is not the double nearest
  to 5/3, and between \<open>1e308\<close> and \<open>-1e308\<close> the difference overflows.
\<close>

lemma interpolatedValue_samples:
  "interpolatedValue (Fin 0) (Fin 5) 1 3 = Fin (3752999689475413 / 2251799813685248)"
  "toDouble (5 / 3) = Fin (7505999378950827 / 4503599627370496)"
  "interpolatedValue (Fin 5) (Fin 8) 1 3 = Fin 6"
  "interpolatedValue (Fin 5) (Fin 8) 2 3 = Fin 7"
  "toDouble (10 ^ 308) = Fin (156575653125701 * 2 ^ 976)"
  "interpolatedValue (Fin (156575653125701 * 2 ^ 976)) (Fin (- (156575653125701 * 2 ^ 976))) 1 2 = NegInf"
  by (simp_all add: interpolatedValue_def jsSub_def infTimes_def double_defs)

section \<open>Missing values: what the code does\<close>

lemma isPresent_iff: "isPresent v \<longleftrightarrow> v \<noteq> None \<and> v \<noteq> Some NaN"
proof (cases v)
  case None
  then show ?thesis by simp
next
  case (Some x)
  then show ?thesis by (cases x) simp_all
qed

text \<open>
  On points that are all present the loop copies: after \<open>k\<close> iterations \<open>result\<close> is the
  first \<open>k\<close> points and \<open>lastValidIndex\<close> is \<open>k - 1\<close>, so the gap test never holds.
\<close>

lemma interp_all_present:
  assumes "\<forall>p \<in> set ps. isPresent (pvalue p)" and "k \<le> length ps"
  shows "fold (interpStep ps) [0..<k] \<lparr>result = [], lastValidValue = None, lastValidIndex = - 1\<rparr>
         = \<lparr>result = take k ps,
            lastValidValue = (if k = 0 then None else pvalue (ps ! (k - 1))),
            lastValidIndex = int k - 1\<rparr>"
  using assms(2)
proof (induction k)
  case 0
  then show ?case by simp
next
  case (Suc k)
  then have k: "k < length ps" by simp
  then have "isPresent (pvalue (ps ! k))" using assms(1) by simp
  then obtain v where v: "pvalue (ps ! k) = Some v" "\<not> isNaN v"
    by (cases "pvalue (ps ! k)") auto
  show ?case
    using Suc k v
    by (simp add: interpStep_def take_Suc_conv_app_nth split: option.splits)
qed

text \<open>
  C9. On a sequence in which every value is a finite number, \<open>interpolate\<close> returns a
  sequence equal to its input.
\<close>

theorem interpolate_gap_free:
  assumes "\<forall>p \<in> set ps. \<exists>x. pvalue p = Some (Fin x)"
  shows "interpolateMissingValues ps = ps
       \<and> handleMissingValues ps (Some ''interpolate'') = ps"
proof -
  have "\<forall>p \<in> set ps. isPresent (pvalue p)" using assms by auto
  then have "interpolateMissingValues ps = ps"
    by (simp add: interpolateMissingValues_def interp_all_present)
  then show ?thesis by (simp add: handleMissingValues_def)
qed

theorem interpolate_gap_free_witness:
  "handleMissingValues
     [\<lparr>date = DateStr ''2020'', pvalue = Some (Fin 5)\<rparr>,
      \<lparr>date = DateStr ''2021'', pvalue = Some (Fin 7)\<rparr>] (Some ''interpolate'')
   = [\<lparr>date = DateStr ''2020'', pvalue = Some (Fin 5)\<rparr>,
      \<lparr>date = DateStr ''2021'', pvalue = Some (Fin 7)\<rparr>]"
  using interpolate_gap_free
    [of "[\<lparr>date = DateStr ''2020'', pvalue = Some (Fin 5)\<rparr>,
          \<lparr>date = DateStr ''2021'', pvalue = Some (Fin 7)\<rparr>]"]
  by simp

text \<open>
  C3, as the code has it. With the strategy argument omitted the policy is \<open>remove\<close>; with
  a strategy string that is none of \<open>remove\<close>, \<open>zero\<close>, \<open>interpolate\<close> it returns its input
  unchanged: nothing is dropped and nothing is raised.
\<close>

theorem unknown_strategy_returns_input:
  "handleMissingValues ps None = handleMissingValues ps (Some ''remove'')
   \<and> (s \<noteq> ''remove'' \<and> s \<noteq> ''zero'' \<and> s \<noteq> ''interpolate''
        \<longrightarrow> handleMissingValues ps (Some s) = ps)"
  by (simp add: handleMissingValues_def)

theorem unknown_strategy_returns_input_witness:
  "handleMissingValues [\<lparr>date = DateStr ''2020'', pvalue = None\<rparr>] (Some ''median'')
   = [\<lparr>date = DateStr ''2020'', pvalue = None\<rparr>]"
  using unknown_strategy_returns_input
    [of "[\<lparr>date = DateStr ''2020'', pvalue = None\<rparr>]" "''median''"]
  by simp

text \<open>
  The claim C3 fails: under the unrecognised strategy \<open>median\<close> the absent point stays,
  where \<open>remove\<close> drops it.
\<close>

theorem unknown_strategy_counterexample:
  "handleMissingValues [\<lparr>date = DateStr ''2020'', pvalue = None\<rparr>] (Some ''median'')
     = [\<lparr>date = DateStr ''2020'', pvalue = None\<rparr>]
   \<and> handleMissingValues [\<lparr>date = DateStr ''2020'', pvalue = None\<rparr>] (Some ''remove'') = []"
  by (simp add: handleMissingValues_def)

text \<open>
  C5, as the code has it. \<open>remove\<close> keeps, in order, exactly the points whose value is
  neither absent nor \<open>NaN\<close>; \<open>zero\<close> keeps length, order and dates and puts 0 for every
  value that is absent or \<open>NaN\<close>. An infinite value is kept by both. On
  \<open>[{t0,5},{t1,null},{t2,7}]\<close> the results are \<open>[{t0,5},{t2,7}]\<close> and
  \<open>[{t0,5},{t1,0},{t2,7}]\<close>.
\<close>

theorem remove_and_zero:
  "handleMissingValues ps (Some ''remove'') =
     filter (\<lambda>p. pvalue p \<noteq> None \<and> pvalue p \<noteq> Some NaN) ps
   \<and> length (handleMissingValues ps (Some ''remove'')) \<le> length ps
   \<and> length (handleMissingValues ps (Some ''zero'')) = length ps
   \<and> map date (handleMissingValues ps (Some ''zero'')) = map date ps
   \<and> map pvalue (handleMissingValues ps (Some ''zero'')) =
       map (\<lambda>p. if pvalue p = None \<or> pvalue p = Some NaN then Some (Fin 0) else pvalue p) ps
   \<and> handleMissingValues
        [\<lparr>date = t0, pvalue = Some (Fin 5)\<rparr>, \<lparr>date = t1, pvalue = None\<rparr>,
         \<lparr>date = t2, pvalue = Some (Fin 7)\<rparr>] (Some ''remove'')
       = [\<lparr>date = t0, pvalue = Some (Fin 5)\<rparr>, \<lparr>date = t2, pvalue = Some (Fin 7)\<rparr>]
   \<and> handleMissingValues
        [\<lparr>date = t0, pvalue = Some (Fin 5)\<rparr>, \<lparr>date = t1, pvalue = None\<rparr>,
         \<lparr>date = t2, pvalue = Some (Fin 7)\<rparr>] (Some ''zero'')
       = [\<lparr>date = t0, pvalue = Some (Fin 5)\<rparr>, \<lparr>date = t1, pvalue = Some (Fin 0)\<rparr>,
          \<lparr>date = t2, pvalue = Some (Fin 7)\<rparr>]"
  by (simp add: handleMissingValues_def isPresent_iff)

text \<open>
  The claim C5 fails on a value that is not finite and not \<open>NaN\<close>: \<open>remove\<close> keeps the
  point whose value is \<open>Infinity\<close>, and \<open>zero\<close> leaves it as it is.
\<close>

theorem remove_keeps_infinity_counterexample:
  "\<not> isFinite PosInf
   \<and> handleMissingValues [\<lparr>date = DateStr ''2020'', pvalue = Some PosInf\<rparr>] (Some ''remove'')
       = [\<lparr>date = DateStr ''2020'', pvalue = Some PosInf\<rparr>]
   \<and> handleMissingValues [\<lparr>date = DateStr ''2020'', pvalue = Some PosInf\<rparr>] (Some ''zero'')
       = [\<lparr>date = DateStr ''2020'', pvalue = Some PosInf\<rparr>]"
  by (simp add: handleMissingValues_def)

section \<open>Interpolation\<close>

text \<open>
  C2. The code on the series 5, \<open>null\<close>, \<open>null\<close>, 8. The two missing points are pushed when
  the loop meets them, and pushed again with their interpolated values 6 and 7 when it
  meets the 8: the result has six points, not four, and still holds the two missing
  points.
\<close>

theorem interpolate_pushes_gap_twice:
  "interpolateMissingValues
     [\<lparr>date = DateStr ''t0'', pvalue = Some (Fin 5)\<rparr>,
      \<lparr>date = DateStr ''t1'', pvalue = None\<rparr>,
      \<lparr>date = DateStr ''t2'', pvalue = None\<rparr>,
      \<lparr>date = DateStr ''t3'', pvalue = Some (Fin 8)\<rparr>]
   = [\<lparr>date = DateStr ''t0'', pvalue = Some (Fin 5)\<rparr>,
      \<lparr>date = DateStr ''t1'', pvalue = None\<rparr>,
      \<lparr>date = DateStr ''t2'', pvalue = None\<rparr>,
      \<lparr>date = DateStr ''t1'', pvalue = Some (Fin 6)\<rparr>,
      \<lparr>date = DateStr ''t2'', pvalue = Some (Fin 7)\<rparr>,
      \<lparr>date = DateStr ''t3'', pvalue = Some (Fin 8)\<rparr>]"
  by (simp add: interpolateMissingValues_def interpStep_def fillGap_def upt_rec
      interpolatedValue_samples)

section \<open>formatValue\<close>

text \<open>\<open>toFixed(2)\<close> on sample values: half a cent rounds away from zero, the sign stays.\<close>

lemma toFixed2_samples:
  "toFixed2 big (Fin 0) = ''0.00''"
  "toFixed2 big (Fin (- 1 / 1000)) = ''-0.00''"
  "toFixed2 big (Fin (5 / 1000)) = ''0.01''"
  "toFixed2 big (Fin (- 12345 / 10)) = ''-1234.50''"
  "toFixed2 big PosInf = ''Infinity''"
  by (simp_all add: toFixed2_def Let_def)

text \<open>
  The quotient is a double: \<open>1005000 / 1e6\<close> lies below 1.005 and is written \<open>1.00\<close>.
\<close>

lemma formatValue_samples:
  "formatValue noExponent (Some (Fin 1005000)) None = ''1.00M''"
  "formatValue noExponent (Some (Fin (- 2500))) (Some ''USD'') = ''-2.50K''"
  "formatValue noExponent (Some (Fin 999)) None = ''999.00''"
  by (simp_all add: formatValue_def toFixed2_def Let_def toLowerCase_def toLowerChar_def
      double_defs)

text \<open>\<open>includes\<close> is the test for a contiguous occurrence.\<close>

lemma strIncludes_sublist: "strIncludes s sub \<longleftrightarrow> sublist sub s"
proof (induction s)
  case Nil
  show ?case by auto
next
  case (Cons c cs)
  have "take (length sub) (c # cs) = sub \<longleftrightarrow> prefix sub (c # cs)"
    by (metis append_eq_conv_conj prefix_def take_is_prefix)
  with Cons show ?case by (simp add: sublist_Cons_right)
qed

text \<open>
  C4, as the code has it. \<open>formatValue\<close> is a total function without effects. An absent
  value and \<open>NaN\<close> give \<open>N/A\<close>. Every other value, the infinite ones included, goes
  through the rules in order: a unit hint whose lower case contains \<open>percent\<close>, or which
  contains \<open>%\<close>, gives \<open>toFixed(2)\<close> followed by \<open>%\<close>; a hint whose lower case contains
  \<open>index\<close> gives \<open>toFixed(2)\<close>; otherwise a magnitude from \<open>1e9\<close>, \<open>1e6\<close>, \<open>1e3\<close> gives the
  quotient's \<open>toFixed(2)\<close> with \<open>B\<close>, \<open>M\<close>, \<open>K\<close>, and a smaller one \<open>toFixed(2)\<close>.
\<close>

theorem formatValue_rules:
  "formatValue big None units = ''N/A''
   \<and> formatValue big (Some NaN) units = ''N/A''
   \<and> (x \<noteq> NaN \<longrightarrow>
        formatValue big (Some x) units =
          (if \<exists>u. units = Some u \<and> (sublist ''percent'' (toLowerCase u) \<or> sublist ''%'' u)
             then toFixed2 big x @ ''%''
           else if \<exists>u. units = Some u \<and> sublist ''index'' (toLowerCase u)
             then toFixed2 big x
           else if jsGe (jsAbs x) (10 ^ 9) then toFixed2 big (jsDivPos x (10 ^ 9)) @ ''B''
           else if jsGe (jsAbs x) (10 ^ 6) then toFixed2 big (jsDivPos x (10 ^ 6)) @ ''M''
           else if jsGe (jsAbs x) (10 ^ 3) then toFixed2 big (jsDivPos x (10 ^ 3)) @ ''K''
           else toFixed2 big x))
   \<and> formatValue big (Some (Fin 1500000000)) None = ''1.50B''
   \<and> formatValue big None (Some ''percent'') = ''N/A''
   \<and> formatValue big (Some (Fin (421 / 10))) (Some ''Index'') = ''42.10''"
proof (intro conjI impI)
  show "formatValue big None units = ''N/A''"
    by (simp add: formatValue_def)
  show "formatValue big (Some NaN) units = ''N/A''"
    by (simp add: formatValue_def)
  show "formatValue big None (Some ''percent'') = ''N/A''"
    by (simp add: formatValue_def)
  show "formatValue big (Some (Fin 1500000000)) None = ''1.50B''"
    by (simp add: formatValue_def toFixed2_def Let_def double_defs)
  show "formatValue big (Some (Fin (421 / 10))) (Some ''Index'') = ''42.10''"
    by (simp add: formatValue_def toFixed2_def Let_def toLowerCase_def toLowerChar_def)
next
  assume "x \<noteq> NaN"
  then have "\<not> isNaN x" by (cases x) simp_all
  then show "formatValue big (Some x) units =
          (if \<exists>u. units = Some u \<and> (sublist ''percent'' (toLowerCase u) \<or> sublist ''%'' u)
             then toFixed2 big x @ ''%''
           else if \<exists>u. units = Some u \<and> sublist ''index'' (toLowerCase u)
             then toFixed2 big x
           else if jsGe (jsAbs x) (10 ^ 9) then toFixed2 big (jsDivPos x (10 ^ 9)) @ ''B''
           else if jsGe (jsAbs x) (10 ^ 6) then toFixed2 big (jsDivPos x (10 ^ 6)) @ ''M''
           else if jsGe (jsAbs x) (10 ^ 3) then toFixed2 big (jsDivPos x (10 ^ 3)) @ ''K''
           else toFixed2 big x)"
    by (cases units) (simp_all add: formatValue_def strIncludes_sublist del: strIncludes.simps)
qed

theorem formatValue_rules_witness:
  "formatValue noExponent (Some (Fin (- 1234567))) (Some ''USD'') = ''-1.23M''"
proof -
  have "formatValue noExponent (Some (Fin (- 1234567))) (Some ''USD'')
        = toFixed2 noExponent (jsDivPos (Fin (- 1234567)) (10 ^ 6)) @ ''M''"
    using formatValue_rules[of noExponent "Some ''USD''" "Fin (- 1234567)"]
    by (simp add: strIncludes_sublist[symmetric] toLowerCase_def toLowerChar_def)
  then show ?thesis by (simp add: toFixed2_def Let_def double_defs)
qed

text \<open>
  The claim C4 fails on the infinite values, which are not finite and come out as
  \<open>InfinityB\<close> and \<open>-Infinity%\<close>.
\<close>

theorem formatValue_infinity_counterexample:
  "\<not> isFinite PosInf
   \<and> formatValue noExponent (Some PosInf) None = ''InfinityB''
   \<and> formatValue noExponent (Some NegInf) (Some ''percent'') = ''-Infinity%''"
  by (simp add: formatValue_def toFixed2_def toLowerCase_def toLowerChar_def)

section \<open>Chart configuration\<close>

lemma default_margin: "getDefaultConfig ct ''margin'' = Some (VObject DEFAULT_MARGIN)"
  by (simp add: getDefaultConfig_def DEFAULT_LINE_CHART_CONFIG_def DEFAULT_BAR_CHART_CONFIG_def
      DEFAULT_AREA_CHART_CONFIG_def Let_def)

text \<open>
  C7. Without an override the resolved configuration is the default of the chart type.
  With an override \<open>u\<close>, every property but \<open>margin\<close> is that of \<open>u\<close> where \<open>u\<close> has it and
  the default's otherwise; \<open>margin\<close> is an object whose every key is that of the
  override's margin where it has the key and the default margin's otherwise. A chart
  type that is not \<open>bar\<close> or \<open>area\<close>, known or not, has the line chart's default. For
  \<open>resolve('line', {margin: {top: 5}})\<close> the margin is top 5, right 30, bottom 20, left 20.
\<close>

theorem resolve_merges_override:
  "resolvedConfig ct None = getDefaultConfig ct
   \<and> (\<forall>k. k \<noteq> ''margin'' \<longrightarrow>
          resolvedConfig ct (Some u) k =
            (case u k of Some v \<Rightarrow> Some v | None \<Rightarrow> getDefaultConfig ct k))
   \<and> (\<exists>m. resolvedConfig ct (Some u) ''margin'' = Some (VObject m)
          \<and> (\<forall>side. m side =
                (case spreadProps (u ''margin'') side of
                   Some v \<Rightarrow> Some v
                 | None \<Rightarrow> DEFAULT_MARGIN side)))
   \<and> (ct \<noteq> Some ''bar'' \<and> ct \<noteq> Some ''area''
        \<longrightarrow> getDefaultConfig ct = DEFAULT_LINE_CHART_CONFIG)
   \<and> (\<exists>m. resolvedConfig (Some ''line'') (Some [''margin'' \<mapsto> VObject [''top'' \<mapsto> VNum 5]])
             ''margin'' = Some (VObject m)
          \<and> m ''top'' = Some (VNum 5) \<and> m ''right'' = Some (VNum 30)
          \<and> m ''bottom'' = Some (VNum 20) \<and> m ''left'' = Some (VNum 20))"
proof (intro conjI)
  show "resolvedConfig ct None = getDefaultConfig ct"
    by (simp add: resolvedConfig_def mergeConfig_def)
  show "\<forall>k. k \<noteq> ''margin'' \<longrightarrow>
          resolvedConfig ct (Some u) k =
            (case u k of Some v \<Rightarrow> Some v | None \<Rightarrow> getDefaultConfig ct k)"
    by (simp add: resolvedConfig_def mergeConfig_def map_add_def)
  show "\<exists>m. resolvedConfig ct (Some u) ''margin'' = Some (VObject m)
          \<and> (\<forall>side. m side =
                (case spreadProps (u ''margin'') side of
                   Some v \<Rightarrow> Some v
                 | None \<Rightarrow> DEFAULT_MARGIN side))"
    by (simp add: resolvedConfig_def mergeConfig_def default_margin map_add_def)
  show "ct \<noteq> Some ''bar'' \<and> ct \<noteq> Some ''area''
        \<longrightarrow> getDefaultConfig ct = DEFAULT_LINE_CHART_CONFIG"
    by (cases ct) (simp_all add: getDefaultConfig_def)
  show "\<exists>m. resolvedConfig (Some ''line'') (Some [''margin'' \<mapsto> VObject [''top'' \<mapsto> VNum 5]])
             ''margin'' = Some (VObject m)
          \<and> m ''top'' = Some (VNum 5) \<and> m ''right'' = Some (VNum 30)
          \<and> m ''bottom'' = Some (VNum 20) \<and> m ''left'' = Some (VNum 20)"
    by (simp add: resolvedConfig_def mergeConfig_def default_margin DEFAULT_MARGIN_def)
qed

theorem resolve_merges_override_witness:
  "getDefaultConfig (Some ''scatter'') = DEFAULT_LINE_CHART_CONFIG
   \<and> resolvedConfig (Some ''scatter'') (Some [''height'' \<mapsto> VNum 300]) ''height'' = Some (VNum 300)
   \<and> resolvedConfig (Some ''scatter'') (Some [''height'' \<mapsto> VNum 300]) ''strokeWidth''
       = Some (VNum 2)"
  using resolve_merges_override[of "Some ''scatter''" "[''height'' \<mapsto> VNum 300]"]
  by (simp add: DEFAULT_LINE_CHART_CONFIG_def)

section \<open>Dates\<close>

text \<open>The two date functions of the library on sample values.\<close>

lemma replicate_numeral: "replicate (numeral k) x = x # replicate (pred_numeral k) x"
  by (simp add: numeral_eq_Suc)

lemma toISOString_samples:
  "toISOString 0 = ''1970-01-01T00:00:00.000Z''"
  "toISOString 1577836800000 = ''2020-01-01T00:00:00.000Z''"
  "toISOString (- 1) = ''1969-12-31T23:59:59.999Z''"
  "toISOString 1709210096789 = ''2024-02-29T12:34:56.789Z''"
  "toISOString (- 62198755200000) = ''-000001-01-01T00:00:00.000Z''"
  "toISOString 253402300800000 = ''+010000-01-01T00:00:00.000Z''"
  by (simp_all add: toISOString_def isoDate_def isoTime_def civilFromDays_def civilFromEra_def
      yearOfEra_def civilFromYear_def civilDate_def padDigits_def replicate_numeral)

lemma dateOnlyParse_samples:
  "dateOnlyParse ''1970'' = Some 0"
  "dateOnlyParse ''2020'' = Some 1577836800000"
  "dateOnlyParse ''2020-01-01'' = Some 1577836800000"
  "dateOnlyParse ''2024-02-29'' = Some 1709164800000"
  "dateOnlyParse ''2023-02-29'' = None"
  "dateOnlyParse ''1969-12'' = Some (- 2678400000)"
  "dateOnlyParse ''2020-13-01'' = None"
  "dateOnlyParse ''not a date'' = None"
  by (simp_all add: dateOnlyParse_def utcMidnight_def daysInMonth_def daysFromCivil_def
      daysFromMarchYear_def)

text \<open>
  C8, as the code has it. \<open>parseDate\<close> raises nothing. For a string it returns the
  \<open>Date\<close> of what \<open>Date.parse\<close> reads: for an unparseable string the invalid date, whose
  time value is \<open>NaN\<close>, which is neither the current time nor the epoch nor any other
  time. A \<open>Date\<close> object is returned as it is.
\<close>

theorem parseDate_invalid_date:
  "parseDate parse (DateStr s) = parse s
   \<and> parseDate parse (DateObj t) = t
   \<and> (parse s = None \<longrightarrow> (\<forall>time. parseDate parse (DateStr s) \<noteq> Some time))"
  by (simp add: parseDate_def)

theorem parseDate_invalid_date_witness:
  "parseDate dateOnlyParse (DateStr ''2020-13-01'') \<noteq> Some 0"
proof -
  have "dateOnlyParse ''2020-13-01'' = None"
    by (simp add: dateOnlyParse_def utcMidnight_def)
  then show ?thesis
    using parseDate_invalid_date[of dateOnlyParse "''2020-13-01''"] by simp
qed

text \<open>
  The claim C8 fails: on a string that is no date \<open>parseDate\<close> returns, the invalid
  date; no error reaches the caller.
\<close>

theorem parseDate_counterexample:
  "parseDate dateOnlyParse (DateStr ''not a date'') = None"
  by (simp add: parseDate_def dateOnlyParse_def)

section \<open>Alignment\<close>

lemma forEach_Inr:
  assumes "\<And>x s. x \<in> set xs \<Longrightarrow> f x s = Inr (g x s)"
  shows "forEach f xs s = Inr (fold g xs s)"
  using assms by (induction xs arbitrary: s) simp_all

lemma dateStr_dateKey: "d \<noteq> DateObj None \<Longrightarrow> dateStr d = Inr (dateKey d)"
  by (cases d rule: dateStr.cases) (simp_all add: dateKey_def)

lemma putPoint_insertPoint:
  "date p \<noteq> DateObj None \<Longrightarrow> putPoint ds p m = Inr (insertPoint ds p m)"
  by (simp add: putPoint_def insertPoint_def dateStr_dateKey Let_def)

lemma buildDataMap_fold:
  assumes "validDates datasets"
  shows "buildDataMap datasets = Inr (fold (\<lambda>ds. fold (insertPoint ds) (data ds)) datasets [])"
  unfolding buildDataMap_def
proof (rule forEach_Inr)
  fix ds s assume "ds \<in> set datasets"
  then have "\<forall>p \<in> set (data ds). date p \<noteq> DateObj None"
    using assms by (simp add: validDates_def)
  then show "forEach (putPoint ds) (data ds) s = Inr (fold (insertPoint ds) (data ds) s)"
    by (intro forEach_Inr) (simp add: putPoint_insertPoint)
qed

lemma allDates_fold:
  assumes "validDates datasets"
  shows "allDates datasets =
           Inr (fold (\<lambda>ds. fold (\<lambda>p. insert (dateKey (date p))) (data ds)) datasets {})"
  unfolding allDates_def
proof (rule forEach_Inr)
  fix ds s assume "ds \<in> set datasets"
  then have "\<forall>p \<in> set (data ds). date p \<noteq> DateObj None"
    using assms by (simp add: validDates_def)
  then show "forEach addDate (data ds) s = Inr (fold (\<lambda>p. insert (dateKey (date p))) (data ds) s)"
    by (intro forEach_Inr) (simp add: addDate_def dateStr_dateKey)
qed




lemma fold_insert_keys: "fold (\<lambda>p. insert (f p)) ps S = S \<union> f ` set ps"
  by (induction ps arbitrary: S) auto

lemma allDates_dateKeys:
  "fold (\<lambda>ds. fold (\<lambda>p. insert (dateKey (date p))) (data ds)) datasets S = S \<union> dateKeys datasets"
  by (induction datasets arbitrary: S) (auto simp: dateKeys_def fold_insert_keys)

lemma keys_insertPoint:
  "map fst (insertPoint ds p m) =
     (if dateKey (date p) \<in> set (map fst m) then map fst m else map fst m @ [dateKey (date p)])"
  by (auto simp: insertPoint_def Let_def case_prod_unfold comp_def)

lemma keys_fold_insertPoint:
  "distinct (map fst m) \<Longrightarrow>
     distinct (map fst (fold (insertPoint ds) ps m))
     \<and> set (map fst (fold (insertPoint ds) ps m)) = set (map fst m) \<union> (\<lambda>p. dateKey (date p)) ` set ps"
proof (induction ps arbitrary: m)
  case Nil
  then show ?case by simp
next
  case (Cons p ps)
  have "distinct (map fst (insertPoint ds p m))"
    using Cons.prems by (simp add: keys_insertPoint)
  from Cons.IH[OF this] show ?case
    by (auto simp: keys_insertPoint split: if_splits)
qed

lemma keys_dataMap:
  "distinct (map fst m) \<Longrightarrow>
     distinct (map fst (fold (\<lambda>ds. fold (insertPoint ds) (data ds)) datasets m))
     \<and> set (map fst (fold (\<lambda>ds. fold (insertPoint ds) (data ds)) datasets m))
         = set (map fst m) \<union> dateKeys datasets"
proof (induction datasets arbitrary: m)
  case Nil
  then show ?case by (simp add: dateKeys_def)
next
  case (Cons ds datasets)
  from keys_fold_insertPoint[OF Cons.prems, of ds "data ds"]
  have d: "distinct (map fst (fold (insertPoint ds) (data ds) m))"
    and s: "set (map fst (fold (insertPoint ds) (data ds) m))
            = set (map fst m) \<union> (\<lambda>p. dateKey (date p)) ` set (data ds)"
    by simp_all
  from Cons.IH[OF d] s show ?case
    by (auto simp: dateKeys_def)
qed




lemma mset_insertSorted: "mset (insertSorted le x xs) = add_mset x (mset xs)"
  by (induction xs) simp_all

lemma mset_arraySort: "mset (arraySort le xs) = mset xs"
  by (induction xs) (simp_all add: arraySort_def mset_insertSorted)

lemma set_arraySort: "set (arraySort le xs) = set xs"
  using mset_arraySort[of le xs] by (metis set_mset_mset)

lemma distinct_map_arraySort: "distinct (map f (arraySort le xs)) = distinct (map f xs)"
proof -
  have "mset (map f (arraySort le xs)) = mset (map f xs)"
    by (simp add: mset_arraySort)
  then show ?thesis by (rule mset_eq_imp_distinct_iff)
qed

lemma sorted_insertSorted:
  fixes f :: "'a \<Rightarrow> int"
  assumes "\<forall>b \<in> set xs. le x b \<longleftrightarrow> f x \<le> f b" and "sorted (map f xs)"
  shows "sorted (map f (insertSorted le x xs))"
  using assms
proof (induction xs)
  case Nil
  then show ?case by simp
next
  case (Cons y ys)
  show ?case
  proof (cases "le x y")
    case True
    then have "f x \<le> f y" using Cons.prems(1) by simp
    then show ?thesis using True Cons.prems(2) by auto
  next
    case False
    then have "f y \<le> f x" using Cons.prems(1) by auto
    moreover have "sorted (map f (insertSorted le x ys))"
      using Cons by simp
    moreover have "set (insertSorted le x ys) = insert x (set ys)"
      by (metis mset_insertSorted set_mset_add_mset_insert set_mset_mset)
    ultimately show ?thesis using False Cons.prems(2) by auto
  qed
qed

lemma sorted_arraySort:
  fixes f :: "'a \<Rightarrow> int"
  assumes "\<forall>a \<in> set xs. \<forall>b \<in> set xs. le a b \<longleftrightarrow> f a \<le> f b"
  shows "sorted (map f (arraySort le xs))"
  using assms
proof (induction xs)
  case Nil
  then show ?case by (simp add: arraySort_def)
next
  case (Cons x xs)
  have "sorted (map f (arraySort le xs))" using Cons by simp
  moreover have "\<forall>b \<in> set (arraySort le xs). le x b \<longleftrightarrow> f x \<le> f b"
    using Cons.prems by (simp add: set_arraySort)
  ultimately have "sorted (map f (insertSorted le x (arraySort le xs)))"
    by (intro sorted_insertSorted)
  then show ?case by (simp add: arraySort_def)
qed

text \<open>No property \<open>id_metadata\<close> is the property \<open>date\<close>.\<close>

lemma date_not_metadata: "''date'' \<noteq> i @ ''_metadata''"
proof
  assume "''date'' = i @ ''_metadata''"
  then have "length ''date'' = length (i @ ''_metadata'')" by (rule arg_cong)
  then show False by simp
qed

lemma setPoint_date: "dsId ds \<noteq> ''date'' \<Longrightarrow> setPoint ds p r ''date'' = r ''date''"
  using date_not_metadata[of "dsId ds"]
  by (auto simp: setPoint_def Let_def split: option.splits)

lemma setPoint_other:
  "x \<noteq> dsId ds \<Longrightarrow> x \<noteq> dsId ds @ ''_metadata'' \<Longrightarrow> setPoint ds p r x = r x"
  by (simp add: setPoint_def Let_def split: option.splits)

lemma rowOf_new: "rowOf D k [''date'' \<mapsto> CDate k]"
  by (simp add: rowOf_def)

lemma rowOf_mono: "rowOf D k r \<Longrightarrow> D \<subseteq> D' \<Longrightarrow> rowOf D' k r"
  unfolding rowOf_def by blast

lemma rowOf_setPoint:
  assumes "rowOf D k r" and "dsId ds \<noteq> ''date''" and "dateKey (date p) = k"
  shows "rowOf (insert (ds, p) D) k (setPoint ds p r)"
  unfolding rowOf_def
proof (intro conjI allI impI)
  show "setPoint ds p r ''date'' = Some (CDate k)"
    using assms(1,2) by (simp add: setPoint_date rowOf_def)
next
  fix x assume x: "x \<noteq> ''date'' \<and> setPoint ds p r x \<noteq> None"
  show "\<exists>ds' p'. (ds', p') \<in> insert (ds, p) D \<and> dateKey (date p') = k
          \<and> (x = dsId ds' \<or> x = dsId ds' @ ''_metadata'')"
  proof (cases "x = dsId ds \<or> x = dsId ds @ ''_metadata''")
    case True
    then show ?thesis using assms(3) by blast
  next
    case False
    then have "setPoint ds p r x = r x" by (simp add: setPoint_other)
    then have "\<exists>ds' p'. (ds', p') \<in> D \<and> dateKey (date p') = k
          \<and> (x = dsId ds' \<or> x = dsId ds' @ ''_metadata'')"
      using x assms(1) unfolding rowOf_def by metis
    then show ?thesis by blast
  qed
qed

lemma rowsFrom_mono: "rowsFrom D m \<Longrightarrow> D \<subseteq> D' \<Longrightarrow> rowsFrom D' m"
  unfolding rowsFrom_def using rowOf_mono by blast

lemma rowsFrom_insertPoint:
  assumes "rowsFrom D m" and "dsId ds \<noteq> ''date''"
  shows "rowsFrom (insert (ds, p) D) (insertPoint ds p m)"
proof -
  define k where "k = dateKey (date p)"
  define m' where "m' = (if k \<in> set (map fst m) then m else m @ [(k, [''date'' \<mapsto> CDate k])])"
  have m': "rowsFrom D m'"
    using assms(1) rowOf_new[of D k] by (simp add: m'_def rowsFrom_def)
  have ins: "insertPoint ds p m
             = map (\<lambda>kr. if fst kr = k then (fst kr, setPoint ds p (snd kr)) else kr) m'"
    by (simp add: insertPoint_def m'_def k_def Let_def case_prod_unfold)
  show ?thesis
    unfolding rowsFrom_def ins
  proof
    fix kr assume "kr \<in> set (map (\<lambda>kr. if fst kr = k then (fst kr, setPoint ds p (snd kr)) else kr) m')"
    then obtain kr0 where kr0: "kr0 \<in> set m'"
      and kr: "kr = (if fst kr0 = k then (fst kr0, setPoint ds p (snd kr0)) else kr0)"
      unfolding set_map by (elim imageE)
    from m' kr0 have r0: "rowOf D (fst kr0) (snd kr0)"
      unfolding rowsFrom_def by blast
    show "rowOf (insert (ds, p) D) (fst kr) (snd kr)"
    proof (cases "fst kr0 = k")
      case True
      then show ?thesis
        using rowOf_setPoint[OF r0 assms(2), of p] kr by (simp add: k_def)
    next
      case False
      then show ?thesis
        using rowOf_mono[OF r0, of "insert (ds, p) D"] kr by auto
    qed
  qed
qed

lemma rowsFrom_points:
  assumes "rowsFrom D m" and "dsId ds \<noteq> ''date''"
  shows "rowsFrom (D \<union> {ds} \<times> set ps) (fold (insertPoint ds) ps m)"
  using assms(1)
proof (induction ps arbitrary: D m)
  case Nil
  then show ?case by simp
next
  case (Cons p ps)
  have "rowsFrom (insert (ds, p) D \<union> {ds} \<times> set ps)
          (fold (insertPoint ds) (p # ps) m)"
    using Cons.IH[OF rowsFrom_insertPoint[OF Cons.prems assms(2), of p]] by simp
  moreover have "insert (ds, p) D \<union> {ds} \<times> set ps \<subseteq> D \<union> {ds} \<times> set (p # ps)"
    by auto
  ultimately show ?case by (rule rowsFrom_mono)
qed

lemma rowsFrom_datasets:
  assumes "rowsFrom D m" and "\<forall>ds \<in> set datasets. dsId ds \<noteq> ''date''"
  shows "rowsFrom (D \<union> (SIGMA ds : set datasets. set (data ds)))
           (fold (\<lambda>ds. fold (insertPoint ds) (data ds)) datasets m)"
  using assms
proof (induction datasets arbitrary: D m)
  case Nil
  then show ?case by simp
next
  case (Cons ds datasets)
  have "rowsFrom (D \<union> {ds} \<times> set (data ds)) (fold (insertPoint ds) (data ds) m)"
    using Cons.prems by (intro rowsFrom_points) simp_all
  then have "rowsFrom (D \<union> {ds} \<times> set (data ds) \<union> (SIGMA ds : set datasets. set (data ds)))
          (fold (\<lambda>ds. fold (insertPoint ds) (data ds)) (ds # datasets) m)"
    using Cons.IH[of "D \<union> {ds} \<times> set (data ds)" "fold (insertPoint ds) (data ds) m"] Cons.prems(2)
    by simp
  moreover have "D \<union> {ds} \<times> set (data ds) \<union> (SIGMA ds : set datasets. set (data ds))
                 \<subseteq> D \<union> (SIGMA ds : set (ds # datasets). set (data ds))"
    by auto
  ultimately show ?case by (rule rowsFrom_mono)
qed

lemma parse_2020: "dateOnlyParse ''2020'' = Some 1577836800000"
  by (simp add: dateOnlyParse_def utcMidnight_def daysInMonth_def daysFromCivil_def daysFromMarchYear_def Let_def)

lemma parse_2020_01_01: "dateOnlyParse ''2020-01-01'' = Some 1577836800000"
  by (simp add: dateOnlyParse_def utcMidnight_def daysInMonth_def daysFromCivil_def daysFromMarchYear_def Let_def)



lemma chartData_rows:
  assumes "validDates datasets"
  defines "m \<equiv> fold (\<lambda>ds. fold (insertPoint ds) (data ds)) datasets []"
  shows "chartData parse datasets =
           Inr (arraySort (\<lambda>a b. timeNotAfter (rowTime parse a) (rowTime parse b)) (map snd m))"
    and "allDates datasets = Inr (dateKeys datasets)"
    and "distinct (map fst m)" and "set (map fst m) = dateKeys datasets"
proof -
  show k: "distinct (map fst m)" "set (map fst m) = dateKeys datasets"
    using keys_dataMap[of "[]" datasets] by (simp_all add: m_def)
  show "allDates datasets = Inr (dateKeys datasets)"
    using assms(1) by (simp add: allDates_fold allDates_dateKeys)
  have "datasets = [] \<Longrightarrow> m = []" by (simp add: m_def)
  then show "chartData parse datasets =
           Inr (arraySort (\<lambda>a b. timeNotAfter (rowTime parse a) (rowTime parse b)) (map snd m))"
    using assms(1)
    by (auto simp: chartData_def allDates_fold buildDataMap_fold m_def[symmetric] arraySort_def)
qed

lemma dataMap_rows:
  assumes "\<forall>ds \<in> set datasets. dsId ds \<noteq> ''date''"
  shows "rowsFrom (SIGMA ds : set datasets. set (data ds))
           (fold (\<lambda>ds. fold (insertPoint ds) (data ds)) datasets [])"
  using rowsFrom_datasets[of "{}" "[]" datasets] assms by (simp add: rowsFrom_def)




text \<open>
  C6, as the code has it. When no point holds an invalid \<open>Date\<close> object and no dataset is
  named \<open>date\<close>, the rows have pairwise different date strings, one row for each date
  key: points with the same date string share a row. When every date string parses,
  the times of the rows are in ascending order, not strictly: two date strings for the
  same instant are two rows.
\<close>

theorem rows_distinct_and_ordered:
  "validDates datasets \<and> (\<forall>ds \<in> set datasets. dsId ds \<noteq> ''date'') \<longrightarrow>
     (\<exists>rows. chartData parse datasets = Inr rows
        \<and> distinct (map (\<lambda>r. r ''date'') rows)
        \<and> (\<lambda>r. r ''date'') ` set rows = (\<lambda>k. Some (CDate k)) ` dateKeys datasets
        \<and> ((\<forall>k \<in> dateKeys datasets. parse k \<noteq> None) \<longrightarrow>
              (\<exists>ts. map (rowTime parse) rows = map Some ts \<and> sorted ts)))"
proof (rule impI)
  assume A: "validDates datasets \<and> (\<forall>ds \<in> set datasets. dsId ds \<noteq> ''date'')"
  then have v: "validDates datasets" and ids: "\<forall>ds \<in> set datasets. dsId ds \<noteq> ''date''"
    by simp_all
  define m where "m = fold (\<lambda>ds. fold (insertPoint ds) (data ds)) datasets []"
  define le where "le = (\<lambda>a b. timeNotAfter (rowTime parse a) (rowTime parse b))"
  define rows where "rows = arraySort le (map snd m)"
  note cd = chartData_rows(1)[OF v, of parse, folded m_def]
    chartData_rows(3-4)[OF v, folded m_def]
  have cdr: "chartData parse datasets = Inr rows"
    using cd(1) by (simp add: rows_def le_def)
  have dates: "map (\<lambda>r. r ''date'') (map snd m) = map (\<lambda>k. Some (CDate k)) (map fst m)"
    using dataMap_rows[OF ids] by (simp add: rowsFrom_def rowOf_def m_def)
  have "distinct (map (\<lambda>k. Some (CDate k)) (map fst m))"
    using cd(2) by (simp add: distinct_map inj_on_def)
  then have d: "distinct (map (\<lambda>r. r ''date'') rows)"
    unfolding rows_def distinct_map_arraySort dates[symmetric] .
  have "(\<lambda>r. r ''date'') ` set rows = set (map (\<lambda>r. r ''date'') (map snd m))"
    by (simp add: rows_def set_arraySort image_image)
  also have "\<dots> = (\<lambda>k. Some (CDate k)) ` set (map fst m)"
    unfolding dates by (simp only: set_map)
  also have "\<dots> = (\<lambda>k. Some (CDate k)) ` dateKeys datasets"
    by (simp only: cd(3))
  finally have s: "(\<lambda>r. r ''date'') ` set rows = (\<lambda>k. Some (CDate k)) ` dateKeys datasets" .
  have o: "\<exists>ts. map (rowTime parse) rows = map Some ts \<and> sorted ts"
    if p: "\<forall>k \<in> dateKeys datasets. parse k \<noteq> None"
  proof -
    have t: "\<exists>t. rowTime parse r = Some t" if "r \<in> set (map snd m)" for r
    proof -
      from that s have "r ''date'' \<in> (\<lambda>k. Some (CDate k)) ` dateKeys datasets"
        by (auto simp: rows_def set_arraySort)
      then obtain k where "k \<in> dateKeys datasets" "r ''date'' = Some (CDate k)" by auto
      then show ?thesis using p by (auto simp: rowTime_def)
    qed
    define f where "f = (\<lambda>r. the (rowTime parse r))"
    have "\<forall>a \<in> set (map snd m). \<forall>b \<in> set (map snd m). le a b \<longleftrightarrow> f a \<le> f b"
    proof (intro ballI)
      fix a b assume "a \<in> set (map snd m)" "b \<in> set (map snd m)"
      then obtain x y where "rowTime parse a = Some x" "rowTime parse b = Some y"
        using t by blast
      then show "le a b \<longleftrightarrow> f a \<le> f b" by (simp add: le_def f_def timeNotAfter_def)
    qed
    then have "sorted (map f rows)" unfolding rows_def by (rule sorted_arraySort)
    moreover have "map (rowTime parse) rows = map Some (map f rows)"
    proof -
      have "\<forall>r \<in> set rows. rowTime parse r = Some (f r)"
        using t by (auto simp: rows_def set_arraySort f_def)
      then show ?thesis by (simp add: comp_def)
    qed
    ultimately show ?thesis by blast
  qed
  show "\<exists>rows. chartData parse datasets = Inr rows
        \<and> distinct (map (\<lambda>r. r ''date'') rows)
        \<and> (\<lambda>r. r ''date'') ` set rows = (\<lambda>k. Some (CDate k)) ` dateKeys datasets
        \<and> ((\<forall>k \<in> dateKeys datasets. parse k \<noteq> None) \<longrightarrow>
              (\<exists>ts. map (rowTime parse) rows = map Some ts \<and> sorted ts))"
    using cdr d s o by (intro exI[of _ rows]) simp
qed

theorem rows_distinct_and_ordered_witness:
  "\<exists>rows. chartData dateOnlyParse
       [\<lparr>dsId = ''gdp'', label = ''GDP'',
          data = [\<lparr>date = DateStr ''2021'', pvalue = Some (Fin 2)\<rparr>,
                  \<lparr>date = DateStr ''2020'', pvalue = Some (Fin 1)\<rparr>],
          metadata = None\<rparr>,
        \<lparr>dsId = ''cpi'', label = ''CPI'',
          data = [\<lparr>date = DateStr ''2021'', pvalue = None\<rparr>],
          metadata = None\<rparr>] = Inr rows
     \<and> distinct (map (\<lambda>r. r ''date'') rows)
     \<and> (\<exists>ts. map (rowTime dateOnlyParse) rows = map Some ts \<and> sorted ts)"
proof -
  let ?ds = "[\<lparr>dsId = ''gdp'', label = ''GDP'',
          data = [\<lparr>date = DateStr ''2021'', pvalue = Some (Fin 2)\<rparr>,
                  \<lparr>date = DateStr ''2020'', pvalue = Some (Fin 1)\<rparr>],
          metadata = None\<rparr>,
        \<lparr>dsId = ''cpi'', label = ''CPI'',
          data = [\<lparr>date = DateStr ''2021'', pvalue = None\<rparr>],
          metadata = None\<rparr>]"
  have v: "validDates ?ds" by (simp add: validDates_def)
  have k: "dateKeys ?ds = {''2020'', ''2021''}" by (auto simp: dateKeys_def dateKey_def)
  have ids: "\<forall>ds \<in> set ?ds. dsId ds \<noteq> ''date''" by simp
  have p: "\<forall>k \<in> dateKeys ?ds. dateOnlyParse k \<noteq> None"
    unfolding k
    by (simp add: dateOnlyParse_def utcMidnight_def daysInMonth_def daysFromCivil_def daysFromMarchYear_def Let_def)
  from rows_distinct_and_ordered[of ?ds dateOnlyParse] v ids p show ?thesis
    by blast
qed

text \<open>
  The claim C6 fails: the date strings \<open>2020\<close> and \<open>2020-01-01\<close> denote the same instant,
  and the two points stay in two rows, which have the same time.
\<close>

theorem same_period_two_rows_counterexample:
  "(case chartData dateOnlyParse
      [\<lparr>dsId = ''gdp'', label = ''GDP'',
         data = [\<lparr>date = DateStr ''2020'', pvalue = Some (Fin 1)\<rparr>], metadata = None\<rparr>,
       \<lparr>dsId = ''cpi'', label = ''CPI'',
         data = [\<lparr>date = DateStr ''2020-01-01'', pvalue = Some (Fin 2)\<rparr>], metadata = None\<rparr>]
    of Inr rows \<Rightarrow> map (\<lambda>r. (r ''date'', rowTime dateOnlyParse r)) rows | Inl e \<Rightarrow> [])
   = [(Some (CDate ''2020''), Some 1577836800000),
      (Some (CDate ''2020-01-01''), Some 1577836800000)]"
  by (simp add: chartData_def allDates_def addDate_def buildDataMap_def putPoint_def setPoint_def
      arraySort_def rowTime_def timeNotAfter_def parse_2020 parse_2020_01_01)

section \<open>The calls on the heap\<close>

text \<open>Allocation of points appends to \<open>points\<close> and leaves \<open>arrays\<close> alone.\<close>

lemma newPoints_effect:
  "newPoints ps h = (rs, h') \<Longrightarrow>
     points h' = points h @ ps \<and> arrays h' = arrays h
     \<and> rs = map (\<lambda>i. length (points h) + i) [0..<length ps]"
proof (induction ps arbitrary: h rs h')
  case Nil
  then show ?case by simp
next
  case (Cons p ps)
  obtain rs2 h2 where 2: "newPoints ps (h\<lparr>points := points h @ [p]\<rparr>) = (rs2, h2)"
    by (cases "newPoints ps (h\<lparr>points := points h @ [p]\<rparr>)")
  from Cons.prems 2 have eq: "rs = length (points h) # rs2" "h' = h2"
    by (simp_all add: newPoint_def)
  from Cons.IH[OF 2] have "points h2 = points h @ p # ps" "arrays h2 = arrays h"
    and "rs2 = map (\<lambda>i. length (points h) + Suc i) [0..<length ps]"
    by simp_all
  then show ?case
    unfolding eq by (simp add: map_upt_Suc del: upt_Suc)
qed

lemma pointAt_old:
  "points h' = points h @ ps \<Longrightarrow> r < length (points h) \<Longrightarrow> pointAt h' r = pointAt h r"
  by (simp add: pointAt_def nth_append)

lemma deref_newPoints:
  assumes "newPoints ps h = (rs, h')"
  shows "map (pointAt h') rs = ps"
proof -
  from newPoints_effect[OF assms] have p: "points h' = points h @ ps"
    and rs: "rs = map (\<lambda>i. length (points h) + i) [0..<length ps]" by simp_all
  show ?thesis
    unfolding rs by (rule nth_equalityI) (simp_all add: pointAt_def p)
qed

text \<open>
  The loop on the heap against the loop on values. \<open>h0\<close> is the heap at the call and
  \<open>refs\<close> the array \<open>data\<close>, whose references are addresses of \<open>h0\<close>.
\<close>

lemma interp_heap_simulation:
  assumes wf: "\<forall>x \<in> set refs. x < length (points h0)" and k: "k \<le> length refs"
    and run: "fold (interpStep_heap refs) [0..<k]
                (\<lparr>result = [], lastValidValue = None, lastValidIndex = - 1\<rparr>, h0) = (st, h)"
  shows "(\<exists>ps. points h = points h0 @ ps) \<and> arrays h = arrays h0
       \<and> (\<forall>x \<in> set (result st). x < length (points h))
       \<and> fold (interpStep (map (pointAt h0) refs)) [0..<k]
             \<lparr>result = [], lastValidValue = None, lastValidIndex = - 1\<rparr>
           = \<lparr>result = map (pointAt h) (result st),
              lastValidValue = lastValidValue st,
              lastValidIndex = lastValidIndex st\<rparr>"
  using k run
proof (induction k arbitrary: st h)
  case 0
  then show ?case by auto
next
  case (Suc k)
  define pts where "pts = map (pointAt h0) refs"
  obtain st1 h1 where 1: "fold (interpStep_heap refs) [0..<k]
                (\<lparr>result = [], lastValidValue = None, lastValidIndex = - 1\<rparr>, h0) = (st1, h1)"
    by (cases "fold (interpStep_heap refs) [0..<k]
                (\<lparr>result = [], lastValidValue = None, lastValidIndex = - 1\<rparr>, h0)")
  from Suc.prems have klt: "k < length refs" by simp
  from Suc.IH[OF _ 1] klt obtain ps1 where
    p1: "points h1 = points h0 @ ps1" and a1: "arrays h1 = arrays h0"
    and r1: "\<forall>x \<in> set (result st1). x < length (points h1)"
    and s1: "fold (interpStep pts) [0..<k]
               \<lparr>result = [], lastValidValue = None, lastValidIndex = - 1\<rparr>
             = \<lparr>result = map (pointAt h1) (result st1),
                lastValidValue = lastValidValue st1,
                lastValidIndex = lastValidIndex st1\<rparr>"
    unfolding pts_def by auto
  have step: "interpStep_heap refs k (st1, h1) = (st, h)"
    using Suc.prems(2) 1 by simp
  define r where "r = refs ! k"
  have rlt: "r < length (points h0)" using wf klt by (simp add: r_def)
  have pr: "pointAt h1 r = pts ! k"
    using rlt klt by (simp add: pts_def r_def[symmetric] pointAt_old[OF p1])
  have deref: "map (pointAt h1) refs = pts"
    unfolding pts_def using wf by (simp add: pointAt_old[OF p1])
  have goal_step: "fold (interpStep pts) [0..<Suc k]
               \<lparr>result = [], lastValidValue = None, lastValidIndex = - 1\<rparr>
        = interpStep pts k \<lparr>result = map (pointAt h1) (result st1),
                lastValidValue = lastValidValue st1,
                lastValidIndex = lastValidIndex st1\<rparr>"
    using s1 by simp
  show ?case
  proof (cases "isPresent (pvalue (pts ! k))")
    case False
    then have "interpStep_heap refs k (st1, h1) = (st1\<lparr>result := result st1 @ [r]\<rparr>, h1)"
      using pr by (cases "pvalue (pts ! k)") (simp_all add: interpStep_heap_def r_def[symmetric] Let_def)
    with step have old: "st = st1\<lparr>result := result st1 @ [r]\<rparr>" "h = h1"
      by simp_all
    have "interpStep pts k \<lparr>result = map (pointAt h1) (result st1),
                lastValidValue = lastValidValue st1,
                lastValidIndex = lastValidIndex st1\<rparr>
          = \<lparr>result = map (pointAt h1) (result st1) @ [pts ! k],
                lastValidValue = lastValidValue st1,
                lastValidIndex = lastValidIndex st1\<rparr>"
      using False by (cases "pvalue (pts ! k)") (auto simp: interpStep_def Let_def)
    then show ?thesis
      unfolding pts_def[symmetric] goal_step
      using old p1 a1 r1 rlt pr by auto
  next
    case True
    then obtain v where v: "pvalue (pts ! k) = Some v" "\<not> isNaN v"
      by (cases "pvalue (pts ! k)") auto
    define fill where "fill =
       (case lastValidValue st1 of None \<Rightarrow> []
        | Some lastValid \<Rightarrow>
            if 0 \<le> lastValidIndex st1 \<and> lastValidIndex st1 < int k - 1
            then fillGap pts lastValid (lastValidIndex st1) v k else [])"
    obtain rs h2 where np: "newPoints fill h1 = (rs, h2)" by (cases "newPoints fill h1")
    have alloc: "(case lastValidValue st1 of
                        None \<Rightarrow> ([], h1)
                      | Some lastValid \<Rightarrow>
                          if 0 \<le> lastValidIndex st1 \<and> lastValidIndex st1 < int k - 1
                          then newPoints
                                 (fillGap (map (pointAt h1) refs) lastValid (lastValidIndex st1) v k) h1
                          else ([], h1)) = (rs, h2)"
      using np unfolding fill_def deref by (auto split: option.splits)
    have "interpStep_heap refs k (st1, h1)
          = (\<lparr>result = result st1 @ rs @ [r], lastValidValue = Some v, lastValidIndex = int k\<rparr>, h2)"
      using pr v alloc by (simp add: interpStep_heap_def r_def[symmetric] Let_def)
    with step have new:
      "st = \<lparr>result = result st1 @ rs @ [r], lastValidValue = Some v, lastValidIndex = int k\<rparr>"
      "h = h2"
      by simp_all
    from newPoints_effect[OF np] have p2: "points h2 = points h1 @ fill"
      and a2: "arrays h2 = arrays h1"
      and rs: "rs = map (\<lambda>i. length (points h1) + i) [0..<length fill]" by simp_all
    have keep: "map (pointAt h2) (result st1) = map (pointAt h1) (result st1)"
      using r1 by (simp add: pointAt_old[OF p2])
    have r2: "pointAt h2 r = pts ! k"
      using pr rlt p1 p2 by (simp add: pointAt_def nth_append)
    have "interpStep pts k \<lparr>result = map (pointAt h1) (result st1),
                lastValidValue = lastValidValue st1,
                lastValidIndex = lastValidIndex st1\<rparr>
          = \<lparr>result = map (pointAt h1) (result st1) @ fill @ [pts ! k],
                lastValidValue = Some v,
                lastValidIndex = int k\<rparr>"
      using v unfolding fill_def by (auto simp: interpStep_def Let_def split: option.splits)
    moreover have "map (pointAt h2) (result st1 @ rs @ [r])
                   = map (pointAt h1) (result st1) @ fill @ [pts ! k]"
      using keep deref_newPoints[OF np] r2 by simp
    moreover have "\<forall>x \<in> set (result st1 @ rs @ [r]). x < length (points h2)"
      using r1 rlt p1 p2 rs by auto
    ultimately show ?thesis
      unfolding pts_def[symmetric] goal_step
      using new p1 p2 a1 a2 by auto
  qed
qed

text \<open>Sorting references by their points is sorting the points.\<close>

lemma map_insertSorted:
  "map f (insertSorted (\<lambda>x y. le (f x) (f y)) x xs) = insertSorted le (f x) (map f xs)"
  by (induction xs) simp_all

lemma map_arraySort:
  "map f (arraySort (\<lambda>x y. le (f x) (f y)) xs) = arraySort le (map f xs)"
  by (induction xs) (simp_all add: arraySort_def map_insertSorted)

lemma pointAt_same: "points h' = points h \<Longrightarrow> pointAt h' = pointAt h"
  by (simp add: pointAt_def fun_eq_iff)

lemma preserved_append:
  "points h' = points h @ ps \<Longrightarrow> arrays h' = arrays h @ as \<Longrightarrow> preserved h h'"
  by (simp add: preserved_def)

lemma deref_old:
  assumes "points h' = points h @ ps" and "list_all (\<lambda>x. x < length (points h)) refs"
  shows "map (pointAt h') refs = map (pointAt h) refs"
  using assms(2) by (simp add: list_all_iff pointAt_old[OF assms(1)])

text \<open>What a call of \<open>interpolateMissingValues\<close> does to the heap, and what it returns.\<close>

lemma interpolate_heap_effect:
  assumes call: "interpolateMissingValues_heap h a = (r, h')"
    and wf: "list_all (\<lambda>x. x < length (points h)) (arrays h ! a)"
  shows "\<exists>ps refs. points h' = points h @ ps \<and> arrays h' = arrays h @ [refs]
           \<and> r = length (arrays h)
           \<and> map (pointAt h') refs = interpolateMissingValues (map (pointAt h) (arrays h ! a))"
proof -
  obtain st h1 where 1: "fold (interpStep_heap (arrays h ! a)) [0..<length (arrays h ! a)]
             (\<lparr>result = [], lastValidValue = None, lastValidIndex = - 1\<rparr>, h) = (st, h1)"
    by (cases "fold (interpStep_heap (arrays h ! a)) [0..<length (arrays h ! a)]
             (\<lparr>result = [], lastValidValue = None, lastValidIndex = - 1\<rparr>, h)")
  have wf': "\<forall>x \<in> set (arrays h ! a). x < length (points h)"
    using wf by (simp add: list_all_iff)
  from interp_heap_simulation[OF wf' _ 1] obtain ps where
    p: "points h1 = points h @ ps" and ar: "arrays h1 = arrays h"
    and sim: "fold (interpStep (map (pointAt h) (arrays h ! a))) [0..<length (arrays h ! a)]
             \<lparr>result = [], lastValidValue = None, lastValidIndex = - 1\<rparr>
           = \<lparr>result = map (pointAt h1) (result st),
              lastValidValue = lastValidValue st,
              lastValidIndex = lastValidIndex st\<rparr>"
    by auto
  from call 1 have "newArray (result st) h1 = (r, h')"
    by (simp add: interpolateMissingValues_heap_def)
  then have r: "r = length (arrays h)" and h': "h' = h1\<lparr>arrays := arrays h @ [result st]\<rparr>"
    using ar by (auto simp: newArray_def)
  have "pointAt h' = pointAt h1"
    by (rule pointAt_same) (simp add: h')
  then have "map (pointAt h') (result st) = interpolateMissingValues (map (pointAt h) (arrays h ! a))"
    using sim by (simp add: interpolateMissingValues_def)
  then show ?thesis using p r h' by auto
qed

lemma handleMissingValues_heap_effect:
  assumes call: "handleMissingValues_heap h a strategy = (r, h')"
    and wf: "list_all (\<lambda>x. x < length (points h)) (arrays h ! a)"
  shows "if strategy \<in> {None, Some ''remove'', Some ''zero'', Some ''interpolate''}
         then \<exists>ps refs. points h' = points h @ ps \<and> arrays h' = arrays h @ [refs]
                \<and> r = length (arrays h)
                \<and> map (pointAt h') refs
                    = handleMissingValues (map (pointAt h) (arrays h ! a)) strategy
         else h' = h \<and> r = a"
proof -
  define s where "s = (case strategy of None \<Rightarrow> ''remove'' | Some s \<Rightarrow> s)"
  consider (remove) "s = ''remove''" | (zero) "s = ''zero''" | (interp) "s = ''interpolate''"
    | (other) "s \<noteq> ''remove''" "s \<noteq> ''zero''" "s \<noteq> ''interpolate''"
    by blast
  then show ?thesis
  proof cases
    case remove
    then have rec: "strategy \<in> {None, Some ''remove'', Some ''zero'', Some ''interpolate''}"
      by (cases strategy) (simp_all add: s_def)
    have "newArray (filter (\<lambda>r. isPresent (pvalue (pointAt h r))) (arrays h ! a)) h = (r, h')"
      using call remove by (simp add: handleMissingValues_heap_def s_def[symmetric])
    then have "points h' = points h @ []"
      "arrays h' = arrays h @ [filter (\<lambda>r. isPresent (pvalue (pointAt h r))) (arrays h ! a)]"
      "r = length (arrays h)"
      by (auto simp: newArray_def)
    moreover have "pointAt h' = pointAt h"
      by (rule pointAt_same) (simp add: calculation(1))
    then have "map (pointAt h') (filter (\<lambda>r. isPresent (pvalue (pointAt h r))) (arrays h ! a))
          = handleMissingValues (map (pointAt h) (arrays h ! a)) strategy"
      using remove
      by (simp add: handleMissingValues_def s_def[symmetric] filter_map comp_def)
    ultimately show ?thesis using rec by (simp only: if_True) blast
  next
    case zero
    then have rec: "strategy \<in> {None, Some ''remove'', Some ''zero'', Some ''interpolate''}"
      by (cases strategy) (simp_all add: s_def)
    define zs where "zs = map (\<lambda>r. (pointAt h r)\<lparr>pvalue :=
                        (if isPresent (pvalue (pointAt h r)) then pvalue (pointAt h r)
                         else Some (Fin 0))\<rparr>) (arrays h ! a)"
    obtain refs h1 where np: "newPoints zs h = (refs, h1)" by (cases "newPoints zs h")
    have "newArray refs h1 = (r, h')"
      using call zero np by (simp add: handleMissingValues_heap_def s_def[symmetric] zs_def)
    moreover from newPoints_effect[OF np] have "points h1 = points h @ zs" "arrays h1 = arrays h"
      by simp_all
    ultimately have "points h' = points h @ zs" "arrays h' = arrays h @ [refs]"
      "r = length (arrays h)" and h': "h' = h1\<lparr>arrays := arrays h1 @ [refs]\<rparr>"
      by (auto simp: newArray_def)
    moreover have "pointAt h' = pointAt h1"
      by (rule pointAt_same) (simp add: h')
    then have "map (pointAt h') refs = handleMissingValues (map (pointAt h) (arrays h ! a)) strategy"
      using deref_newPoints[OF np] zero
      by (simp add: handleMissingValues_def s_def[symmetric] zs_def comp_def)
    ultimately show ?thesis using rec by (simp only: if_True) blast
  next
    case interp
    then have rec: "strategy \<in> {None, Some ''remove'', Some ''zero'', Some ''interpolate''}"
      by (cases strategy) (simp_all add: s_def)
    have "interpolateMissingValues_heap h a = (r, h')"
      using call interp by (simp add: handleMissingValues_heap_def s_def[symmetric])
    from interpolate_heap_effect[OF this wf] show ?thesis
      using rec interp by (simp add: handleMissingValues_def s_def[symmetric])
  next
    case other
    then have "strategy \<notin> {None, Some ''remove'', Some ''zero'', Some ''interpolate''}"
      by (cases strategy) (auto simp: s_def)
    moreover have "h' = h \<and> r = a"
      using call other by (simp add: handleMissingValues_heap_def s_def[symmetric])
    ultimately show ?thesis by simp
  qed
qed

lemma sortDataByDate_heap_effect:
  assumes call: "sortDataByDate_heap parse h a = (r, h')"
  shows "\<exists>refs. points h' = points h @ [] \<and> arrays h' = arrays h @ [refs]
           \<and> r = length (arrays h)
           \<and> map (pointAt h') refs = sortDataByDate parse (map (pointAt h) (arrays h ! a))"
proof -
  define refs where "refs = arraySort
          (\<lambda>x y. timeNotAfter (parseDate parse (date (pointAt h x)))
                    (parseDate parse (date (pointAt h y))))
          (arrays h ! a)"
  have "newArray refs h = (r, h')"
    using call by (simp add: sortDataByDate_heap_def refs_def)
  then have e: "points h' = points h @ []" "arrays h' = arrays h @ [refs]" "r = length (arrays h)"
    by (auto simp: newArray_def)
  have "map (pointAt h) refs = sortDataByDate parse (map (pointAt h) (arrays h ! a))"
    unfolding refs_def sortDataByDate_def
    by (rule map_arraySort[of "pointAt h"
          "\<lambda>p q. timeNotAfter (parseDate parse (date p)) (parseDate parse (date q))"])
  moreover have "pointAt h' = pointAt h"
    by (rule pointAt_same) (simp add: e(1))
  ultimately have "map (pointAt h') refs = sortDataByDate parse (map (pointAt h) (arrays h ! a))"
    by simp
  with e show ?thesis by blast
qed

text \<open>From the effect of a call to the frame property.\<close>

lemma frame_of_effect:
  assumes "validArray h a" and "points h' = points h @ ps" and "arrays h' = arrays h @ [refs]"
    and "r = length (arrays h)"
  shows "preserved h h' \<and> derefArray h' a = derefArray h a
       \<and> derefArray h' r = map (pointAt h') refs \<and> freshArray h h' r"
proof -
  from assms(1) have a: "a < length (arrays h)"
    and wf: "list_all (\<lambda>x. x < length (points h)) (arrays h ! a)"
    by (simp_all add: validArray_def)
  have "arrays h' ! a = arrays h ! a" using a assms(3) by (simp add: nth_append)
  then have "derefArray h' a = derefArray h a"
    using deref_old[OF assms(2) wf] by (simp add: derefArray_def)
  moreover have "derefArray h' r = map (pointAt h') refs"
    using assms(3,4) by (simp add: derefArray_def)
  ultimately show ?thesis
    using assms(2,3,4) by (simp add: preserved_def freshArray_def)
qed

text \<open>
  C10. Let \<open>a\<close> be the address of the array \<open>data\<close> in the heap \<open>h\<close>. After a call of
  \<open>handleMissingValues\<close> with any strategy, or of \<open>sortDataByDate\<close>, every point object and
  every array of \<open>h\<close> is as it was, so \<open>data\<close> holds the same points in the same order;
  the array returned holds what the function computes on the points of \<open>data\<close>; and it
  is a new array, for the strategies \<open>remove\<close>, \<open>zero\<close>, \<open>interpolate\<close>, for an omitted
  strategy, and for the sort. (For any other strategy string the array returned is
  \<open>data\<close> itself.)
\<close>

theorem policy_and_sort_leave_input:
  "(validArray h a \<and> handleMissingValues_heap h a strategy = (r, h') \<longrightarrow>
       preserved h h' \<and> derefArray h' a = derefArray h a
       \<and> derefArray h' r = handleMissingValues (derefArray h a) strategy
       \<and> (strategy \<in> {None, Some ''remove'', Some ''zero'', Some ''interpolate''}
            \<longrightarrow> freshArray h h' r))
   \<and> (validArray h a \<and> sortDataByDate_heap parse h a = (r2, h2) \<longrightarrow>
       preserved h h2 \<and> derefArray h2 a = derefArray h a
       \<and> derefArray h2 r2 = sortDataByDate parse (derefArray h a)
       \<and> freshArray h h2 r2)"
proof (rule conjI; rule impI)
  assume A: "validArray h a \<and> handleMissingValues_heap h a strategy = (r, h')"
  then have wf: "list_all (\<lambda>x. x < length (points h)) (arrays h ! a)"
    by (simp add: validArray_def)
  note eff = handleMissingValues_heap_effect[OF conjunct2[OF A] wf]
  show "preserved h h' \<and> derefArray h' a = derefArray h a
       \<and> derefArray h' r = handleMissingValues (derefArray h a) strategy
       \<and> (strategy \<in> {None, Some ''remove'', Some ''zero'', Some ''interpolate''}
            \<longrightarrow> freshArray h h' r)"
  proof (cases "strategy \<in> {None, Some ''remove'', Some ''zero'', Some ''interpolate''}")
    case True
    with eff obtain ps refs where e: "points h' = points h @ ps" "arrays h' = arrays h @ [refs]"
      "r = length (arrays h)"
      "map (pointAt h') refs = handleMissingValues (map (pointAt h) (arrays h ! a)) strategy"
      by (simp only: if_True) blast
    from frame_of_effect[OF conjunct1[OF A] e(1,2,3)] e(4) show ?thesis
      by (simp add: derefArray_def)
  next
    case False
    with eff have same: "h' = h" "r = a" by simp_all
    have "handleMissingValues (derefArray h a) strategy = derefArray h a"
      using False by (cases strategy) (auto simp: handleMissingValues_def)
    then show ?thesis using False same by (auto simp: preserved_def)
  qed
next
  assume B: "validArray h a \<and> sortDataByDate_heap parse h a = (r2, h2)"
  from sortDataByDate_heap_effect[OF conjunct2[OF B]] obtain refs where
    e: "points h2 = points h @ []" "arrays h2 = arrays h @ [refs]" "r2 = length (arrays h)"
    "map (pointAt h2) refs = sortDataByDate parse (map (pointAt h) (arrays h ! a))"
    by blast
  from frame_of_effect[OF conjunct1[OF B] e(1,2,3)] e(4)
  show "preserved h h2 \<and> derefArray h2 a = derefArray h a
       \<and> derefArray h2 r2 = sortDataByDate parse (derefArray h a)
       \<and> freshArray h h2 r2"
    by (simp add: derefArray_def)
qed

text \<open>Two calls on a heap with one array of two points.\<close>

lemma zero_call:
  "handleMissingValues_heap
      \<lparr>points = [\<lparr>date = DateStr ''2021'', pvalue = None\<rparr>,
                 \<lparr>date = DateStr ''2020'', pvalue = Some (Fin 5)\<rparr>],
       arrays = [[0, 1]]\<rparr> 0 (Some ''zero'')
   = (1, \<lparr>points = [\<lparr>date = DateStr ''2021'', pvalue = None\<rparr>,
                    \<lparr>date = DateStr ''2020'', pvalue = Some (Fin 5)\<rparr>,
                    \<lparr>date = DateStr ''2021'', pvalue = Some (Fin 0)\<rparr>,
                    \<lparr>date = DateStr ''2020'', pvalue = Some (Fin 5)\<rparr>],
          arrays = [[0, 1], [2, 3]]\<rparr>)"
  by (simp add: handleMissingValues_heap_def newPoint_def newArray_def pointAt_def)

lemma sort_call:
  "sortDataByDate_heap dateOnlyParse
      \<lparr>points = [\<lparr>date = DateStr ''2021'', pvalue = None\<rparr>,
                 \<lparr>date = DateStr ''2020'', pvalue = Some (Fin 5)\<rparr>],
       arrays = [[0, 1]]\<rparr> 0
   = (1, \<lparr>points = [\<lparr>date = DateStr ''2021'', pvalue = None\<rparr>,
                    \<lparr>date = DateStr ''2020'', pvalue = Some (Fin 5)\<rparr>],
          arrays = [[0, 1], [1, 0]]\<rparr>)"
  by (simp add: sortDataByDate_heap_def newArray_def pointAt_def arraySort_def timeNotAfter_def
      parseDate_def dateOnlyParse_def utcMidnight_def daysInMonth_def daysFromCivil_def daysFromMarchYear_def Let_def)

theorem policy_and_sort_leave_input_witness:
  "derefArray
     \<lparr>points = [\<lparr>date = DateStr ''2021'', pvalue = None\<rparr>,
                \<lparr>date = DateStr ''2020'', pvalue = Some (Fin 5)\<rparr>,
                \<lparr>date = DateStr ''2021'', pvalue = Some (Fin 0)\<rparr>,
                \<lparr>date = DateStr ''2020'', pvalue = Some (Fin 5)\<rparr>],
      arrays = [[0, 1], [2, 3]]\<rparr> 0
   = derefArray
     \<lparr>points = [\<lparr>date = DateStr ''2021'', pvalue = None\<rparr>,
                \<lparr>date = DateStr ''2020'', pvalue = Some (Fin 5)\<rparr>],
      arrays = [[0, 1]]\<rparr> 0
   \<and> derefArray
     \<lparr>points = [\<lparr>date = DateStr ''2021'', pvalue = None\<rparr>,
                \<lparr>date = DateStr ''2020'', pvalue = Some (Fin 5)\<rparr>],
      arrays = [[0, 1], [1, 0]]\<rparr> 1
   = sortDataByDate dateOnlyParse
      (derefArray
        \<lparr>points = [\<lparr>date = DateStr ''2021'', pvalue = None\<rparr>,
                   \<lparr>date = DateStr ''2020'', pvalue = Some (Fin 5)\<rparr>],
         arrays = [[0, 1]]\<rparr> 0)"
  using policy_and_sort_leave_input
    [of "\<lparr>points = [\<lparr>date = DateStr ''2021'', pvalue = None\<rparr>,
                    \<lparr>date = DateStr ''2020'', pvalue = Some (Fin 5)\<rparr>],
          arrays = [[0, 1]]\<rparr>" 0 "Some ''zero''" 1
        "\<lparr>points = [\<lparr>date = DateStr ''2021'', pvalue = None\<rparr>,
                    \<lparr>date = DateStr ''2020'', pvalue = Some (Fin 5)\<rparr>,
                    \<lparr>date = DateStr ''2021'', pvalue = Some (Fin 0)\<rparr>,
                    \<lparr>date = DateStr ''2020'', pvalue = Some (Fin 5)\<rparr>],
          arrays = [[0, 1], [2, 3]]\<rparr>" dateOnlyParse 1
        "\<lparr>points = [\<lparr>date = DateStr ''2021'', pvalue = None\<rparr>,
                    \<lparr>date = DateStr ''2020'', pvalue = Some (Fin 5)\<rparr>],
          arrays = [[0, 1], [1, 0]]\<rparr>"]
    zero_call sort_call
  by (simp add: validArray_def)

end
